theory Spec2Isabelle
  imports Complex_Main "HOL-Library.Sublist" "HOL-Library.Log_Nat"
begin

section \<open>JavaScript values used by the storefront\<close>

text \<open>
  The storefront (\<^verbatim>\<open>shop.js\<close>) and its admin companion share one \<^verbatim>\<open>state\<close> object,
  the same filter and pagination functions, and the same view code. Strings are lists
  of characters, each a code unit below 256 (the Latin-1 range); the case mapping and the
  white-space class below are those of JavaScript on that range.
  Page numbers and item counts are integers (\<open>int\<close>), so a decrement below 1 is visible.
  A number that comes from \<^verbatim>\<open>parseInt\<close> or from a date subtraction is a \<open>jsnum\<close>: an
  integer that a double holds, an infinity or \<^verbatim>\<open>NaN\<close>. Prices are only copied and
  displayed by the code verified here, so their type is a parameter \<open>'n\<close>.
\<close>

subsection \<open>Strings\<close>

text \<open>
  White space as \<^verbatim>\<open>trim\<close>, \<^verbatim>\<open>parseInt\<close> and \<^verbatim>\<open>\s\<close> have it: tab, line feed, vertical tab,
  form feed, carriage return, space and the no-break space.
\<close>

definition isWhiteSpace :: "char \<Rightarrow> bool" where
  "isWhiteSpace c =
     (c \<in> set [CHR 0x09, CHR 0x0A, CHR 0x0B, CHR 0x0C, CHR 0x0D, CHR '' '', CHR 0xA0])"

text \<open>\<^verbatim>\<open>String.prototype.trim\<close>: white space removed at both ends.\<close>

definition trim :: "string \<Rightarrow> string" where
  "trim s = rev (dropWhile isWhiteSpace (rev (dropWhile isWhiteSpace s)))"

text \<open>
  \<^verbatim>\<open>String.prototype.toLowerCase\<close>: the capital letters below 256 are \<^verbatim>\<open>A\<close> to \<^verbatim>\<open>Z\<close> and the
  code units \<^verbatim>\<open>0xC0\<close> to \<^verbatim>\<open>0xDE\<close> without the multiplication sign \<^verbatim>\<open>0xD7\<close>; each has its small
  letter 32 places further on.
\<close>

definition lowerChar :: "char \<Rightarrow> char" where
  "lowerChar c =
     (let n = (of_char c :: nat) in
      if (65 \<le> n \<and> n \<le> 90) \<or> (192 \<le> n \<and> n \<le> 222 \<and> n \<noteq> 215) then char_of (n + 32) else c)"

definition toLowerCase :: "string \<Rightarrow> string" where
  "toLowerCase s = map lowerChar s"

text \<open>
  \<^verbatim>\<open>s.includes(searchString)\<close>: some start position \<open>i\<close> of \<open>s\<close> carries
  \<open>searchString\<close>.
\<close>

definition str_includes :: "string \<Rightarrow> string \<Rightarrow> bool" where
  "str_includes s searchString =
     list_ex (\<lambda>i. take (length searchString) (drop i s) = searchString) [0..<Suc (length s)]"

text \<open>
  The decimal digits of an integer, with a minus sign below zero: what \<^verbatim>\<open>String(n)\<close> and a
  template give for an integer \<open>n\<close> below \<open>2 ^ 53\<close> in magnitude, such as a page number or the
  length of an array.
\<close>

fun digitsOf :: "nat \<Rightarrow> string" where
  "digitsOf n =
     (if n < 10 then [char_of (48 + n)] else digitsOf (n div 10) @ [char_of (48 + n mod 10)])"

definition toString :: "int \<Rightarrow> string" where
  "toString i = (if i < 0 then CHR ''-'' # digitsOf (nat (- i)) else digitsOf (nat i))"

definition padStart :: "nat \<Rightarrow> char \<Rightarrow> string \<Rightarrow> string" where
  "padStart targetLength c s = replicate (targetLength - length s) c @ s"

text \<open>\<^verbatim>\<open>name.replace(/\s+/g, '_')\<close>: every maximal run of white space becomes one underscore.\<close>

function replaceSpaces :: "string \<Rightarrow> string" where
  "replaceSpaces [] = []"
| "replaceSpaces (c # cs) =
     (if isWhiteSpace c then CHR ''_'' # replaceSpaces (dropWhile isWhiteSpace cs)
      else c # replaceSpaces cs)"
  by pat_completeness auto
termination
  by (relation "measure length") (auto simp: le_imp_less_Suc length_dropWhile_le)

subsection \<open>Numbers\<close>

text \<open>
  A JavaScript number is a double. \<open>Num i\<close> is the number whose value is the integer \<open>i\<close>;
  every \<open>Num\<close> that the functions below return holds an integer that a double holds
  exactly. \<open>roundDouble v\<close> is the integer with at most 53 significant bits that is nearest
  to \<open>v\<close>, the even significand winning a tie: the value of the double nearest to \<open>v\<close>. From
  \<open>2 ^ 1024\<close> on, the nearest double is an infinity.
\<close>

datatype jsnum = Num int | NaN | PosInfinity | NegInfinity

definition roundDouble :: "int \<Rightarrow> int" where
  "roundDouble v =
     (let a = \<bar>v\<bar>;
          e = nat (bitlen a - 53)
      in if e = 0 then v
         else let q = a div 2 ^ e;
                  r = a mod 2 ^ e;
                  h = 2 ^ (e - 1);
                  q' = (if h < r \<or> (r = h \<and> odd q) then q + 1 else q)
              in sgn v * (q' * 2 ^ e))"

definition toDouble :: "int \<Rightarrow> jsnum" where
  "toDouble v =
     (let r = roundDouble v
      in if 1024 < bitlen \<bar>r\<bar> then (if 0 < v then PosInfinity else NegInfinity) else Num r)"

text \<open>
  Sum and difference of two numbers: the exact result, rounded to the nearest double.
\<close>

fun jsneg :: "jsnum \<Rightarrow> jsnum" where
  "jsneg (Num a) = Num (- a)"
| "jsneg NaN = NaN"
| "jsneg PosInfinity = NegInfinity"
| "jsneg NegInfinity = PosInfinity"

fun jsplus :: "jsnum \<Rightarrow> jsnum \<Rightarrow> jsnum" where
  "jsplus NaN y = NaN"
| "jsplus x NaN = NaN"
| "jsplus (Num a) (Num b) = toDouble (a + b)"
| "jsplus PosInfinity NegInfinity = NaN"
| "jsplus NegInfinity PosInfinity = NaN"
| "jsplus PosInfinity y = PosInfinity"
| "jsplus x PosInfinity = PosInfinity"
| "jsplus NegInfinity y = NegInfinity"
| "jsplus x NegInfinity = NegInfinity"

definition jsminus :: "jsnum \<Rightarrow> jsnum \<Rightarrow> jsnum" where
  "jsminus x y = jsplus x (jsneg y)"

text \<open>
  \<^verbatim>\<open>String(x)\<close>. An integer below \<open>2 ^ 53\<close> in magnitude is printed with all its digits.
  From there on JavaScript prints the shortest digits that still name the double, and
  from \<open>10 ^ 21\<close> on an exponent; the model does not follow these, and gives \<open>None\<close>.
\<close>

fun numToString :: "jsnum \<Rightarrow> string option" where
  "numToString (Num i) = (if \<bar>i\<bar> < 9007199254740992 then Some (toString i) else None)"
| "numToString NaN = Some ''NaN''"
| "numToString PosInfinity = Some ''Infinity''"
| "numToString NegInfinity = Some ''-Infinity''"

text \<open>
  \<^verbatim>\<open>parseInt(inputString)\<close> without a radix: leading white space is skipped, one sign is
  read, a prefix \<^verbatim>\<open>0x\<close> or \<^verbatim>\<open>0X\<close> selects radix 16, and the longest run of digits of the
  radix is the value, as the nearest double; no digit at all gives \<^verbatim>\<open>NaN\<close>. (Beyond
  twenty significant digits the language lets an engine approximate the value before
  rounding; the model rounds the exact one.)
\<close>

definition digitValue :: "char \<Rightarrow> nat" where
  "digitValue c =
     (let n = (of_char c :: nat) in
      if 48 \<le> n \<and> n \<le> 57 then n - 48
      else if 97 \<le> n \<and> n \<le> 122 then n - 87
      else if 65 \<le> n \<and> n \<le> 90 then n - 55
      else 36)"

definition parseInt :: "string \<Rightarrow> jsnum" where
  "parseInt inputString =
     (let S = dropWhile isWhiteSpace inputString;
          sign = (if take 1 S = ''-'' then - 1 else 1 :: int);
          S1 = (if take 1 S = ''+'' \<or> take 1 S = ''-'' then drop 1 S else S);
          hex = (take 2 S1 = ''0x'' \<or> take 2 S1 = ''0X'');
          R = (if hex then 16 else 10 :: nat);
          S2 = (if hex then drop 2 S1 else S1);
          Z = takeWhile (\<lambda>c. digitValue c < R) S2
      in if Z = [] then NaN
         else toDouble (sign * foldl (\<lambda>a c. a * int R + int (digitValue c)) 0 Z))"

subsection \<open>Sorting with a comparator\<close>

text \<open>
  \<^verbatim>\<open>Array.prototype.sort(comparefn)\<close> is stable; it reads of a comparator result only
  whether it is negative, zero or positive, and a result of \<^verbatim>\<open>NaN\<close> counts as 0. The
  model is the stable insertion sort; where the comparator is not a consistent order
  (some result is \<^verbatim>\<open>NaN\<close>) the language leaves the order to the engine, and the model's
  order is one possible outcome.
\<close>

fun sortCompare :: "('a \<Rightarrow> 'a \<Rightarrow> jsnum) \<Rightarrow> 'a \<Rightarrow> 'a \<Rightarrow> int" where
  "sortCompare comparefn x y =
     (case comparefn x y of
        NaN \<Rightarrow> 0 | Num v \<Rightarrow> v | PosInfinity \<Rightarrow> 1 | NegInfinity \<Rightarrow> - 1)"

fun insertSorted :: "('a \<Rightarrow> 'a \<Rightarrow> jsnum) \<Rightarrow> 'a \<Rightarrow> 'a list \<Rightarrow> 'a list" where
  "insertSorted comparefn x [] = [x]"
| "insertSorted comparefn x (y # ys) =
     (if sortCompare comparefn x y \<le> 0 then x # y # ys
      else y # insertSorted comparefn x ys)"

definition sort_js :: "('a \<Rightarrow> 'a \<Rightarrow> jsnum) \<Rightarrow> 'a list \<Rightarrow> 'a list" where
  "sort_js comparefn xs = foldr (insertSorted comparefn) xs []"

section \<open>The state of a page\<close>

text \<open>
  A product record as the catalog file gives it. The \<open>image\<close> reference may be absent.
\<close>

record 'n product =
  prod_id :: string
  name :: string
  species :: string
  price :: 'n
  available :: bool
  image :: "string option"
  created_at :: string

text \<open>
  Products are objects: the catalog array, the edit form's \<^verbatim>\<open>editingProduct\<close> and the
  delete dialog's \<^verbatim>\<open>deleteTarget\<close> hold references to them, and the edit form updates
  one in place. References are addresses into \<open>store\<close>; \<open>nextRef\<close> is the next unused
  address. Cart entries are copies (\<^verbatim>\<open>{ ...product }\<close>) that nothing updates, so the cart
  holds their values.

  The record has the fields of the \<^verbatim>\<open>state\<close> object (both files), then the properties
  of the DOM elements that the code reads or writes: the search box's value, the sold-out
  checkbox, the \<^verbatim>\<open>disabled\<close> flags of the previous and next buttons, the page-number
  buttons, the products whose cards are shown, whether the exception panel is shown, the
  text of the info lines, the cart counter and the \<^verbatim>\<open>disabled\<close> flag of the order
  button; and last whether a debounced call of the search handler is waiting for its
  timer. The formatted total of the cart (\<^verbatim>\<open>Intl.NumberFormat\<close>) is not modelled.
\<close>

type_synonym ref = nat

datatype 'f blob = WebP 'f

record ('n, 'f) state =
  store :: "ref \<Rightarrow> 'n product"
  nextRef :: ref
  products :: "ref list"
  cart :: "'n product list"
  currentPage :: int
  soldoutCount :: int
  isLoading :: bool
  editedProducts :: "string list"
  convertedImages :: "string \<rightharpoonup> 'f blob"
  editingProduct :: "ref option"
  deleteTarget :: "ref option"
  searchInput :: string
  showSoldOutCheckbox :: bool
  prevBtn :: bool
  nextBtn :: bool
  pageNumbers :: "int list"
  productsContainer :: "ref list"
  queryException :: bool
  queryInfo :: string
  cartCount :: nat
  whatsappBtn :: bool
  searchTimer :: bool

definition ITEMS_PER_PAGE :: int where
  "ITEMS_PER_PAGE = 4"

definition MAX_VISIBLE_PAGES :: int where
  "MAX_VISIBLE_PAGES = 5"

section \<open>Product logic\<close>

text \<open>
  \<^verbatim>\<open>getFilteredProducts(keyword, showSoldOut)\<close>. The result holds references to the
  catalog's own records, in catalog order. The one caller, \<^verbatim>\<open>updateView\<close>, passes both
  arguments, so their default values are not modelled.
\<close>

definition matchesKeyword :: "string \<Rightarrow> 'n product \<Rightarrow> bool" where
  "matchesKeyword lowerKeyword product =
     list_ex (\<lambda>field. str_includes (toLowerCase field) lowerKeyword)
       [prod_id product, name product, species product]"

definition getFilteredProducts :: "string \<Rightarrow> bool \<Rightarrow> ('n, 'f) state \<Rightarrow> ref list" where
  "getFilteredProducts keyword showSoldOut s =
     (let lowerKeyword = toLowerCase keyword in
      filter (\<lambda>r. let product = store s r;
                      matches = matchesKeyword lowerKeyword product
                  in matches \<and> (showSoldOut \<or> available product))
        (products s))"

text \<open>
  \<^verbatim>\<open>Array.prototype.slice(start, end)\<close>: a negative index counts from the end, and both
  indices are clamped to the array.
\<close>

definition slice :: "'a list \<Rightarrow> int \<Rightarrow> int \<Rightarrow> 'a list" where
  "slice xs start end' =
     (let len = int (length xs);
          k = (if start < 0 then max (len + start) 0 else min start len);
          final = (if end' < 0 then max (len + end') 0 else min end' len)
      in take (nat (final - k)) (drop (nat k) xs))"

definition getPaginatedProducts :: "'a list \<Rightarrow> ('n, 'f) state \<Rightarrow> 'a list" where
  "getPaginatedProducts prods s =
     (let start = (currentPage s - 1) * ITEMS_PER_PAGE
      in slice prods start (start + ITEMS_PER_PAGE))"

text \<open>\<^verbatim>\<open>cartView.updateCart\<close> writes the counter and the order button.\<close>

definition updateCart :: "('n, 'f) state \<Rightarrow> ('n, 'f) state" where
  "updateCart s = s\<lparr>cartCount := length (cart s), whatsappBtn := (length (cart s) = 0)\<rparr>"

text \<open>
  \<^verbatim>\<open>toggleCartItem(productId, isChecked)\<close>: the first catalog record with the identifier
  is looked up; without one the function returns at once.
\<close>

definition toggleCartItem :: "string \<Rightarrow> bool \<Rightarrow> ('n, 'f) state \<Rightarrow> ('n, 'f) state" where
  "toggleCartItem productId isChecked s =
     (case find (\<lambda>p. prod_id (store s p) = productId) (products s) of
        None \<Rightarrow> s
      | Some r \<Rightarrow>
          updateCart
            (if isChecked then
               (if \<not> list_ex (\<lambda>item. prod_id item = productId) (cart s)
                then s\<lparr>cart := cart s @ [store s r]\<rparr> else s)
             else s\<lparr>cart := filter (\<lambda>item. prod_id item \<noteq> productId) (cart s)\<rparr>))"

section \<open>Pagination logic\<close>

text \<open>\<^verbatim>\<open>Math.ceil(totalItems / ITEMS_PER_PAGE)\<close>, a division of numbers and its ceiling.\<close>

definition getTotalPages :: "int \<Rightarrow> int" where
  "getTotalPages totalItems = \<lceil>real_of_int totalItems / real_of_int ITEMS_PER_PAGE\<rceil>"

definition calculatePageRange :: "int \<Rightarrow> ('n, 'f) state \<Rightarrow> int \<times> int" where
  "calculatePageRange totalPages s =
     (if totalPages \<le> MAX_VISIBLE_PAGES then (1, totalPages)
      else
        let half = MAX_VISIBLE_PAGES div 2;
            start = max 1 (currentPage s - half);
            end' = min totalPages (start + MAX_VISIBLE_PAGES - 1);
            start = (if end' - start < MAX_VISIBLE_PAGES - 1
                     then max 1 (end' - MAX_VISIBLE_PAGES + 1) else start)
        in (start, end'))"

text \<open>
  \<^verbatim>\<open>paginationManager.render(totalItems)\<close>: the two navigation flags, and one button for
  every page number of the range, each of which sets the current page to its number.
\<close>

definition render :: "int \<Rightarrow> ('n, 'f) state \<Rightarrow> ('n, 'f) state" where
  "render totalItems s =
     (let totalPages = getTotalPages totalItems;
          (start, end') = calculatePageRange totalPages s
      in s\<lparr>prevBtn := (currentPage s = 1),
            nextBtn := (currentPage s = totalPages \<or> totalPages = 0),
            pageNumbers := [start..end']\<rparr>)"

section \<open>Views\<close>

text \<open>
  \<^verbatim>\<open>renderProducts\<close> shows one card per product, or the "not found" panel (which also
  clears the info lines) when there is none.
\<close>

definition renderProducts :: "ref list \<Rightarrow> ('n, 'f) state \<Rightarrow> ('n, 'f) state" where
  "renderProducts prods s =
     (if length prods = 0
      then s\<lparr>productsContainer := [], queryException := True, queryInfo := ''''\<rparr>
      else s\<lparr>productsContainer := prods, queryException := False\<rparr>)"

definition updateFilterInfo :: "int \<Rightarrow> ('n, 'f) state \<Rightarrow> ('n, 'f) state" where
  "updateFilterInfo visibleCount s =
     (let hidden = (if showSoldOutCheckbox s then 0 else soldoutCount s);
          message = ''Page '' @ toString (currentPage s) @ '' | Showing '' @ toString visibleCount
                    @ '' of '' @ toString (int (length (products s)) - hidden) @ '' item(s)''
      in s\<lparr>queryInfo := message\<rparr>)"

definition updateView :: "('n, 'f) state \<Rightarrow> ('n, 'f) state" where
  "updateView s =
     (let keyword = trim (searchInput s);
          showSoldOut = showSoldOutCheckbox s;
          filtered = getFilteredProducts keyword showSoldOut s;
          paginated = getPaginatedProducts filtered s
      in updateFilterInfo (int (length filtered))
           (render (int (length filtered)) (renderProducts paginated s)))"

text \<open>
  The image address computed by \<^verbatim>\<open>createProductCard\<close>: an absent and an empty reference
  are both falsy and select the placeholder.
\<close>

definition placeholderUrl :: string where
  "placeholderUrl = ''https://images.unsplash.com/photo-1559496417-e7f25cb247f3?crop=entropy&cs=tinysrgb&fit=crop&fm=jpg&h=200&w=280&q=80''"

definition imageSrc :: "'n product \<Rightarrow> string" where
  "imageSrc product =
     (case image product of
        None \<Rightarrow> placeholderUrl
      | Some i \<Rightarrow> if i = '''' then placeholderUrl else ''data/images/'' @ i)"

definition showError :: "('n, 'f) state \<Rightarrow> ('n, 'f) state" where
  "showError s = s\<lparr>queryInfo := '''', queryException := True\<rparr>"

section \<open>Loading the catalog\<close>

text \<open>
  The \<^verbatim>\<open>state\<close> object as the script creates it; \<open>page\<close> gives the store and the DOM
  properties, which the page's markup decides.
\<close>

definition initialState :: "('n, 'f) state \<Rightarrow> ('n, 'f) state" where
  "initialState page =
     page\<lparr>products := [], cart := [], currentPage := 1, soldoutCount := 0, isLoading := False,
         editedProducts := [], convertedImages := Map.empty, editingProduct := None,
         deleteTarget := None\<rparr>"

text \<open>
  \<^verbatim>\<open>init\<close> clears the two filter controls, installs the listeners (no debounced call is
  waiting), starts the fetch (\<^verbatim>\<open>fetchProducts\<close> sets \<open>isLoading\<close> before it waits) and shows
  the empty cart (the admin page has no cart view, and its \<^verbatim>\<open>init\<close> is the same without
  that call). The catalog arrives later: \<^verbatim>\<open>productManager.initialize\<close> goes on with the
  fetched records. Each fetched record is a new object; the array is sorted by descending
  creation date, where \<open>dateValue\<close> is the time value of \<^verbatim>\<open>new Date(created_at)\<close> (\<^verbatim>\<open>NaN\<close> for
  an invalid date), and the sold-out count is taken. A failed fetch shows the error panel
  and leaves the state as it is.
\<close>

definition init :: "('n, 'f) state \<Rightarrow> ('n, 'f) state" where
  "init page =
     updateCart ((initialState page)
       \<lparr>showSoldOutCheckbox := False, searchInput := '''', searchTimer := False,
        isLoading := True\<rparr>)"

definition initialize ::
  "(string \<Rightarrow> jsnum) \<Rightarrow> 'n product list \<Rightarrow> ('n, 'f) state \<Rightarrow> ('n, 'f) state" where
  "initialize dateValue fetched s =
     (let base = nextRef s;
          refs = [base..<base + length fetched];
          s1 = s\<lparr>store := (\<lambda>r. if base \<le> r \<and> r < base + length fetched
                                then fetched ! (r - base) else store s r),
                 nextRef := base + length fetched,
                 isLoading := False\<rparr>;
          sorted = sort_js (\<lambda>a b. jsminus (dateValue (created_at (store s1 b)))
                                          (dateValue (created_at (store s1 a)))) refs
      in updateView
           (s1\<lparr>products := sorted,
                soldoutCount := int (length (filter (\<lambda>p. \<not> available (store s1 p)) sorted))\<rparr>))"

definition initializeFailed :: "('n, 'f) state \<Rightarrow> ('n, 'f) state" where
  "initializeFailed s = showError (s\<lparr>isLoading := False\<rparr>)"

section \<open>Event handlers of the storefront\<close>

text \<open>
  The handlers that \<^verbatim>\<open>setupEventListeners\<close> and \<^verbatim>\<open>render\<close> install. The listener of the
  search box is the debounced one: an input event finds the box with its new value and
  only starts the timer again (\<open>searchTimer\<close> tells that a call is waiting); the handler
  itself, which goes back to page 1 and renders, runs when the timer fires. Any other
  handler that runs in between reads the new value of the box. The change event of the
  checkbox finds it flipped.
\<close>

definition onSearchInput :: "string \<Rightarrow> ('n, 'f) state \<Rightarrow> ('n, 'f) state" where
  "onSearchInput typed s = s\<lparr>searchInput := typed, searchTimer := True\<rparr>"

definition onSearchTimer :: "('n, 'f) state \<Rightarrow> ('n, 'f) state" where
  "onSearchTimer s = updateView (s\<lparr>searchTimer := False, currentPage := 1\<rparr>)"

definition onShowSoldOutChange :: "('n, 'f) state \<Rightarrow> ('n, 'f) state" where
  "onShowSoldOutChange s =
     updateView (s\<lparr>showSoldOutCheckbox := \<not> showSoldOutCheckbox s, currentPage := 1\<rparr>)"

definition onPrevClick :: "('n, 'f) state \<Rightarrow> ('n, 'f) state" where
  "onPrevClick s = updateView (s\<lparr>currentPage := currentPage s - 1\<rparr>)"

definition onNextClick :: "('n, 'f) state \<Rightarrow> ('n, 'f) state" where
  "onNextClick s = updateView (s\<lparr>currentPage := currentPage s + 1\<rparr>)"

definition onPageClick :: "int \<Rightarrow> ('n, 'f) state \<Rightarrow> ('n, 'f) state" where
  "onPageClick i s = updateView (s\<lparr>currentPage := i\<rparr>)"

text \<open>
  One step of the storefront: an event on a control that can fire it. The timer fires
  only while a call is waiting, a disabled button fires no click, and a page number can
  be clicked only while its button is shown. A cart toggle is allowed for any identifier
  and either flag, which covers every checkbox the page shows.
\<close>

datatype event =
  SearchInput string
| SearchTimer
| ShowSoldOutChange
| PrevClick
| NextClick
| PageClick int
| CartToggle string bool

fun step :: "event \<Rightarrow> ('n, 'f) state \<Rightarrow> ('n, 'f) state option" where
  "step (SearchInput typed) s = Some (onSearchInput typed s)"
| "step SearchTimer s = (if searchTimer s then Some (onSearchTimer s) else None)"
| "step ShowSoldOutChange s = Some (onShowSoldOutChange s)"
| "step PrevClick s = (if prevBtn s then None else Some (onPrevClick s))"
| "step NextClick s = (if nextBtn s then None else Some (onNextClick s))"
| "step (PageClick i) s = (if i \<in> set (pageNumbers s) then Some (onPageClick i s) else None)"
| "step (CartToggle productId isChecked) s = Some (toggleCartItem productId isChecked s)"

text \<open>
  Modelled from the spec: the markup of the page, which is not among the sources, decides
  the \<^verbatim>\<open>disabled\<close> flags of the two navigation buttons and the page-number buttons before
  the first rendering. With no item and no page, both navigation controls are disabled
  and no page number is shown.
\<close>

definition markupDisabled :: "('n, 'f) state \<Rightarrow> bool" where
  "markupDisabled page \<longleftrightarrow> prevBtn page \<and> nextBtn page \<and> pageNumbers page = []"

text \<open>
  The states of the storefront. It starts with \<^verbatim>\<open>init\<close> on such a page; its listeners are
  installed from then on. While the fetch is under way (\<open>isLoading\<close>), the catalog arrives
  or the fetch fails, at any moment between two steps.
\<close>

inductive reachable :: "('n, 'f) state \<Rightarrow> bool" where
  started: "markupDisabled page \<Longrightarrow> reachable (init page)"
| arrived: "reachable s \<Longrightarrow> isLoading s \<Longrightarrow> reachable (initialize dateValue fetched s)"
| failed: "reachable s \<Longrightarrow> isLoading s \<Longrightarrow> reachable (initializeFailed s)"
| stepped: "reachable s \<Longrightarrow> step e s = Some s' \<Longrightarrow> reachable s'"

text \<open>The filtered list and the page count that the last \<^verbatim>\<open>updateView\<close> worked with.\<close>

definition filteredNow :: "('n, 'f) state \<Rightarrow> ref list" where
  "filteredNow s = getFilteredProducts (trim (searchInput s)) (showSoldOutCheckbox s) s"

definition totalPagesNow :: "('n, 'f) state \<Rightarrow> int" where
  "totalPagesNow s = getTotalPages (int (length (filteredNow s)))"

text \<open>The carts that toggles build from the empty cart of a page.\<close>

inductive toggled :: "('n, 'f) state \<Rightarrow> bool" where
  fresh: "cart s = [] \<Longrightarrow> toggled s"
| toggle: "toggled s \<Longrightarrow> toggled (toggleCartItem productId isChecked s)"

section \<open>Admin catalog editing\<close>

text \<open>
  \<^verbatim>\<open>getNextId\<close>. The result is \<open>None\<close> where the digits of the next number are not followed
  (see \<open>numToString\<close>).
\<close>

definition getNextId :: "('n, 'f) state \<Rightarrow> string option" where
  "getNextId s =
     (let ids = sort_js (\<lambda>a b. jsminus b a)
                  (map (\<lambda>p. parseInt (drop 2 (prod_id (store s p)))) (products s));
          next = (case ids of [] \<Rightarrow> Num 1 | first # _ \<Rightarrow> jsplus first (Num 1))
      in map_option (\<lambda>digits. ''AP'' @ padStart 5 (CHR ''0'') digits) (numToString next))"

text \<open>
  The modal dialogs record their target in the state (they also fill in the form fields,
  whose content at submission is the argument of \<open>onsubmit\<close> below).
\<close>

definition openAddModal :: "('n, 'f) state \<Rightarrow> ('n, 'f) state" where
  "openAddModal s = s\<lparr>editingProduct := None\<rparr>"

definition openEditModal :: "ref \<Rightarrow> ('n, 'f) state \<Rightarrow> ('n, 'f) state" where
  "openEditModal product s = s\<lparr>editingProduct := Some product\<rparr>"

definition openDeleteModal :: "ref \<Rightarrow> ('n, 'f) state \<Rightarrow> ('n, 'f) state" where
  "openDeleteModal product s = s\<lparr>deleteTarget := Some product\<rparr>"

text \<open>
  The form at submission: the identifier field, the name and species as typed, the price
  after \<^verbatim>\<open>parseFloat\<close>, the availability box, and the first selected file if there is one.
\<close>

record ('n, 'f) form =
  productId :: string
  productName :: string
  productSpecies :: string
  productPrice :: 'n
  productAvailable :: bool
  productImage :: "'f option"

text \<open>
  \<^verbatim>\<open>productForm.onsubmit\<close>, with \<open>now\<close> the text of \<^verbatim>\<open>new Date().toISOString()\<close>. The
  re-encoding of a selected file is awaited inside the handler; the model runs the handler
  in one piece and stores the re-encoded file under its generated name.
\<close>

definition onsubmit ::
  "string \<Rightarrow> ('n, 'f) form \<Rightarrow> ('n, 'f) state \<Rightarrow> ('n, 'f) state" where
  "onsubmit now f s =
     (let id' = productId f;
          name' = trim (productName f);
          species' = trim (productSpecies f);
          price' = productPrice f;
          available' = productAvailable f;
          file = productImage f;
          createdAt = (case editingProduct s of Some e \<Rightarrow> created_at (store s e) | None \<Rightarrow> now);
          image0 = (case editingProduct s of
                      Some e \<Rightarrow> (case image (store s e) of Some i \<Rightarrow> i | None \<Rightarrow> '''')
                    | None \<Rightarrow> '''');
          imageFileName = id' @ ''_'' @ replaceSpaces (toLowerCase name') @ ''.webp'';
          image' = (case file of Some fl \<Rightarrow> imageFileName | None \<Rightarrow> image0);
          s1 = (case file of
                  Some fl \<Rightarrow> s\<lparr>convertedImages := (convertedImages s)(imageFileName \<mapsto> WebP fl)\<rparr>
                | None \<Rightarrow> s);
          s2 = (case editingProduct s1 of
                  Some e \<Rightarrow>
                    s1\<lparr>store := (store s1)(e := (store s1 e)
                           \<lparr>name := name', species := species', price := price',
                            available := available', image := Some image'\<rparr>)\<rparr>
                | None \<Rightarrow>
                    s1\<lparr>store := (store s1)(nextRef s1 :=
                           \<lparr>prod_id = id', name = name', species = species', price = price',
                            available = available', image = Some image',
                            created_at = createdAt\<rparr>),
                       products := nextRef s1 # products s1,
                       nextRef := Suc (nextRef s1)\<rparr>)
      in updateView (s2\<lparr>editedProducts := editedProducts s2 @ [id']\<rparr>))"

text \<open>
  \<^verbatim>\<open>confirmDelete.onclick\<close> reads \<^verbatim>\<open>state.deleteTarget.id\<close>; without a target that is a
  \<^verbatim>\<open>TypeError\<close>, raised before the state has changed.
\<close>

datatype error = TypeError

definition confirmDelete :: "('n, 'f) state \<Rightarrow> error + ('n, 'f) state" where
  "confirmDelete s =
     (case deleteTarget s of
        None \<Rightarrow> Inl TypeError
      | Some t \<Rightarrow>
          Inr (updateView
                 (s\<lparr>products := filter (\<lambda>p. prod_id (store s p) \<noteq> prod_id (store s t)) (products s),
                    editedProducts := editedProducts s @ [prod_id (store s t)]\<rparr>)))"

text \<open>
  The count after "of" in the info line, as \<^verbatim>\<open>updateFilterInfo\<close> computes it, and the
  number of products that pass the visibility test of the filter.
\<close>

definition shownOutOf :: "('n, 'f) state \<Rightarrow> int" where
  "shownOutOf s =
     int (length (products s)) - (if showSoldOutCheckbox s then 0 else soldoutCount s)"

definition visibleItems :: "('n, 'f) state \<Rightarrow> int" where
  "visibleItems s = int (length (getFilteredProducts '''' (showSoldOutCheckbox s) s))"

section \<open>Example pages\<close>

text \<open>
  Concrete catalogs for the worked examples: an empty page, a catalog of two plants with
  the identifiers \<^verbatim>\<open>AP00001\<close> and \<^verbatim>\<open>AP00003\<close> (the second one sold out), and a catalog of
  five available plants and one sold-out plant.
\<close>

definition plant :: "string \<Rightarrow> string \<Rightarrow> bool \<Rightarrow> int product" where
  "plant i n a =
     \<lparr>prod_id = i, name = n, species = ''Anubias'', price = 10, available = a,
      image = None, created_at = ''2024-01-01T00:00:00.000Z''\<rparr>"

definition blankPage :: "(int, unit) state" where
  "blankPage =
     \<lparr>store = (\<lambda>r. plant '''' '''' False), nextRef = 0, products = [], cart = [],
      currentPage = 1, soldoutCount = 0, isLoading = False, editedProducts = [],
      convertedImages = Map.empty, editingProduct = None, deleteTarget = None,
      searchInput = '''', showSoldOutCheckbox = False, prevBtn = True, nextBtn = True,
      pageNumbers = [], productsContainer = [], queryException = False, queryInfo = '''',
      cartCount = 0, whatsappBtn = False, searchTimer = False\<rparr>"

definition twoPlants :: "(int, unit) state" where
  "twoPlants =
     initialize (\<lambda>d. Num 0) [plant ''AP00001'' ''Nana'' True, plant ''AP00003'' ''Petite'' False]
       (init blankPage)"

definition sixPlants :: "(int, unit) state" where
  "sixPlants =
     initialize (\<lambda>d. Num 0)
       [plant ''AP00001'' ''Nana'' True, plant ''AP00002'' ''Petite'' True,
        plant ''AP00003'' ''Golden'' True, plant ''AP00004'' ''Coffeefolia'' False,
        plant ''AP00005'' ''Barteri'' True, plant ''AP00006'' ''Hastifolia'' True]
       (init blankPage)"

text \<open>The number of cart entries with a given identifier.\<close>

definition entriesOf :: "string \<Rightarrow> ('n, 'f) state \<Rightarrow> nat" where
  "entriesOf pid s = length (filter (\<lambda>item. prod_id item = pid) (cart s))"

text \<open>Whether some catalog record carries the identifier.\<close>

definition inCatalog :: "string \<Rightarrow> ('n, 'f) state \<Rightarrow> bool" where
  "inCatalog pid s = list_ex (\<lambda>p. prod_id (store s p) = pid) (products s)"

text \<open>The integer that a \<open>Num\<close> holds (0 for the other numbers).\<close>

fun numValue :: "jsnum \<Rightarrow> int" where
  "numValue (Num i) = i"
| "numValue x = 0"

text \<open>
  The six-plant page after a click on the next button; that page after a search without
  a match, once the timer has fired; and the six-plant page after typing \<^verbatim>\<open>nana\<close> (one
  match) and a click on the next button before the timer has fired.
\<close>

definition sixPlantsPage2 :: "(int, unit) state" where
  "sixPlantsPage2 = onNextClick sixPlants"

definition sixPlantsNoMatch :: "(int, unit) state" where
  "sixPlantsNoMatch = onSearchTimer (onSearchInput ''cactus'' sixPlantsPage2)"

definition typedThenNext :: "(int, unit) state" where
  "typedThenNext = onNextClick (onSearchInput ''nana'' sixPlants)"

text \<open>A catalog of one plant whose identifier has no number after its first two characters.\<close>

definition oddId :: "(int, unit) state" where
  "oddId = initialize (\<lambda>d. Num 0) [plant ''FERN-1'' ''Java fern'' True] (init blankPage)"

text \<open>
  What every rendered storefront state satisfies: the current page is 1 or lies within the
  pages, the two navigation flags are the ones \<open>render\<close> computes from the current page,
  and every page-number button carries a page that exists.
\<close>

definition navigationOk :: "('n, 'f) state \<Rightarrow> bool" where
  "navigationOk s \<longleftrightarrow>
     (currentPage s = 1 \<or> (1 \<le> currentPage s \<and> currentPage s \<le> totalPagesNow s))
     \<and> prevBtn s = (currentPage s = 1)
     \<and> nextBtn s = (currentPage s = totalPagesNow s \<or> totalPagesNow s = 0)
     \<and> (\<forall>i \<in> set (pageNumbers s). 1 \<le> i \<and> i \<le> totalPagesNow s)"

text \<open>
  What holds in every state of the storefront: the current page is at least 1, the
  previous button is disabled exactly on page 1, the page-number buttons carry numbers
  from 1 on, the catalog is empty while the fetch is under way, and, unless a debounced
  search is waiting for its timer, the navigation is as above.
\<close>

definition storefrontOk :: "('n, 'f) state \<Rightarrow> bool" where
  "storefrontOk s \<longleftrightarrow>
     1 \<le> currentPage s
     \<and> prevBtn s = (currentPage s = 1)
     \<and> (\<forall>i \<in> set (pageNumbers s). 1 \<le> i)
     \<and> (isLoading s \<longrightarrow> products s = [])
     \<and> (\<not> searchTimer s \<longrightarrow> navigationOk s)"

text \<open>
  Admin examples on the two-plant catalog: the edit dialog open on the first plant with a
  form that renames it and marks it sold out, the add dialog with a form without an image
  file, and the delete dialog open on the sold-out plant.
\<close>

definition editForm :: "(int, unit) form" where
  "editForm =
     \<lparr>productId = ''AP00001'', productName = '' Nana Gold '', productSpecies = ''Anubias'',
      productPrice = 12, productAvailable = False, productImage = None\<rparr>"

definition addForm :: "(int, unit) form" where
  "addForm =
     \<lparr>productId = ''AP00004'', productName = ''Bonsai'', productSpecies = ''Anubias'',
      productPrice = 15, productAvailable = True, productImage = None\<rparr>"

definition editingFirst :: "(int, unit) state" where
  "editingFirst = openEditModal 0 twoPlants"

definition addingOne :: "(int, unit) state" where
  "addingOne = openAddModal twoPlants"

definition deletingSoldOut :: "(int, unit) state" where
  "deletingSoldOut = openDeleteModal 1 twoPlants"

definition afterEdit :: "(int, unit) state" where
  "afterEdit = onsubmit ''2024-06-01T00:00:00.000Z'' editForm editingFirst"

definition afterDelete :: "(int, unit) state" where
  "afterDelete = projr (confirmDelete deletingSoldOut)"

section \<open>The catalog filter\<close>

lemma str_includes_iff: "str_includes s k \<longleftrightarrow> sublist k s"
proof
  assume "str_includes s k"
  then obtain i where i: "i < Suc (length s)" "take (length k) (drop i s) = k"
    unfolding str_includes_def list_ex_iff by (auto simp del: upt_Suc)
  have "drop i s = k @ drop (length k) (drop i s)"
    using i(2) by (metis append_take_drop_id)
  then have "s = take i s @ k @ drop (length k) (drop i s)"
    by (metis append_take_drop_id)
  then show "sublist k s"
    unfolding sublist_def by blast
next
  assume "sublist k s"
  then obtain ps ss where s: "s = ps @ k @ ss"
    unfolding sublist_def by blast
  then have "length ps < Suc (length s)" "take (length k) (drop (length ps) s) = k"
    by simp_all
  then show "str_includes s k"
    unfolding str_includes_def list_ex_iff by (metis atLeast0LessThan lessThan_iff set_upt)
qed

lemma toLowerCase_Nil: "toLowerCase [] = []"
  by (simp add: toLowerCase_def)

lemma matchesKeyword_iff:
  "matchesKeyword lk p \<longleftrightarrow>
     sublist lk (toLowerCase (prod_id p)) \<or> sublist lk (toLowerCase (name p))
       \<or> sublist lk (toLowerCase (species p))"
  by (simp add: matchesKeyword_def str_includes_iff)

text \<open>
  C1. For every catalog, keyword and flag, \<open>getFilteredProducts\<close> returns a subsequence
  of the catalog array (the same records, in catalog order), namely the records for which
  the lower-cased keyword is a substring of the lower-cased identifier, name or species,
  and which are available unless sold-out items are shown. With the empty keyword and
  sold-out items shown, it returns the whole catalog.
\<close>

theorem getFilteredProducts_spec:
  "subseq (getFilteredProducts k showSoldOut s) (products s)
   \<and> getFilteredProducts k showSoldOut s =
       filter (\<lambda>r. (sublist (toLowerCase k) (toLowerCase (prod_id (store s r)))
                    \<or> sublist (toLowerCase k) (toLowerCase (name (store s r)))
                    \<or> sublist (toLowerCase k) (toLowerCase (species (store s r))))
                  \<and> (available (store s r) \<or> showSoldOut)) (products s)
   \<and> (\<forall>r. r \<in> set (getFilteredProducts k showSoldOut s) \<longleftrightarrow>
          r \<in> set (products s)
          \<and> (sublist (toLowerCase k) (toLowerCase (prod_id (store s r)))
             \<or> sublist (toLowerCase k) (toLowerCase (name (store s r)))
             \<or> sublist (toLowerCase k) (toLowerCase (species (store s r))))
          \<and> (available (store s r) \<or> showSoldOut))
   \<and> getFilteredProducts '''' True s = products s"
proof -
  have eq: "getFilteredProducts k showSoldOut s =
       filter (\<lambda>r. (sublist (toLowerCase k) (toLowerCase (prod_id (store s r)))
                    \<or> sublist (toLowerCase k) (toLowerCase (name (store s r)))
                    \<or> sublist (toLowerCase k) (toLowerCase (species (store s r))))
                  \<and> (available (store s r) \<or> showSoldOut)) (products s)"
    unfolding getFilteredProducts_def Let_def matchesKeyword_iff
    by (rule filter_cong) auto
  have sub: "subseq (getFilteredProducts k showSoldOut s) (products s)"
    unfolding getFilteredProducts_def Let_def by (rule subseq_filter_left)
  have all: "getFilteredProducts '''' True s = products s"
    by (simp add: getFilteredProducts_def matchesKeyword_iff toLowerCase_Nil)
  from eq sub all show ?thesis
    by auto
qed

section \<open>Pagination\<close>

lemma getTotalPages_div: "getTotalPages n = (n + 3) div 4"
proof -
  have "\<lceil>real_of_int n / real_of_int 4\<rceil> = - ((- n) div 4)"
    by (rule ceiling_divide_eq_div)
  also have "\<dots> = (n + 3) div 4"
    by presburger
  finally show ?thesis
    by (simp add: getTotalPages_def ITEMS_PER_PAGE_def)
qed

lemma slice_page:
  "slice xs (int k * 4) (int k * 4 + 4) = take 4 (drop (4 * k) xs)"
proof -
  have k: "nat (int k * 4) = 4 * k"
    by (simp add: nat_mult_distrib)
  show ?thesis
  proof (cases "4 * k + 4 \<le> length xs")
    case True
    then have "nat (int k * 4 + 4 - int k * 4) = 4"
      by simp
    with True show ?thesis
      by (simp add: slice_def Let_def min_def k)
  next
    case False
    note nf = this
    show ?thesis
    proof (cases "4 * k \<le> length xs")
      case True
      with nf have "nat (int (length xs) - int k * 4) = length xs - 4 * k"
        by linarith
      with True nf show ?thesis
        by (simp add: slice_def Let_def min_def k)
    next
      case False
      then show ?thesis
        by (simp add: slice_def Let_def min_def)
    qed
  qed
qed

lemma concat_pages:
  "concat (map (\<lambda>k. take c (drop (c * k) xs)) [0..<m]) = take (c * m) xs"
proof (induction m)
  case 0
  show ?case by simp
next
  case (Suc m)
  have "take (c * m + c) xs = take (c * m) xs @ take c (drop (c * m) xs)"
    by (simp add: take_add)
  moreover have "c * Suc m = c * m + c"
    by simp
  ultimately show ?case
    using Suc by (simp del: mult_Suc_right)
qed

lemma upto_as_upt: "[1..int m] = map (\<lambda>k. int k + 1) [0..<m]"
proof (induction m)
  case 0
  show ?case by simp
next
  case (Suc m)
  have "[1..int (Suc m)] = [1..int m] @ [int m + 1]"
    by (simp add: upto_rec2 add.commute)
  with Suc show ?case
    by simp
qed

text \<open>
  C2. For a filtered list of length \<open>n\<close>, \<open>getTotalPages n\<close> is the ceiling of \<open>n / 4\<close>,
  and the slices that \<open>getPaginatedProducts\<close> returns for the pages 1 up to that number,
  concatenated in page order, are the filtered list itself: nothing is repeated and
  nothing is left out.
\<close>

theorem pagination_covers:
  "getTotalPages (int (length filtered)) = \<lceil>real (length filtered) / 4\<rceil>
   \<and> concat (map (\<lambda>pg. getPaginatedProducts filtered (s\<lparr>currentPage := pg\<rparr>))
               [1..getTotalPages (int (length filtered))]) = filtered"
proof -
  define m where "m = (length filtered + 3) div 4"
  have tp: "getTotalPages (int (length filtered)) = int m"
    unfolding getTotalPages_div m_def by (simp add: zdiv_int)
  have page: "getPaginatedProducts filtered (s\<lparr>currentPage := int k + 1\<rparr>)
                = take 4 (drop (4 * k) filtered)" for k
    using slice_page[of filtered k]
    by (simp add: getPaginatedProducts_def ITEMS_PER_PAGE_def)
  have "concat (map (\<lambda>pg. getPaginatedProducts filtered (s\<lparr>currentPage := pg\<rparr>)) [1..int m])
          = concat (map (\<lambda>k. take 4 (drop (4 * k) filtered)) [0..<m])"
    by (simp add: upto_as_upt comp_def page)
  also have "\<dots> = take (4 * m) filtered"
    by (rule concat_pages)
  also have "\<dots> = filtered"
    unfolding m_def by (rule take_all) presburger
  finally have cover: "concat (map (\<lambda>pg. getPaginatedProducts filtered (s\<lparr>currentPage := pg\<rparr>))
      [1..getTotalPages (int (length filtered))]) = filtered"
    by (simp add: tp)
  have "getTotalPages (int (length filtered)) = \<lceil>real (length filtered) / 4\<rceil>"
    by (simp add: getTotalPages_def ITEMS_PER_PAGE_def)
  with cover show ?thesis
    by simp
qed

text \<open>
  C3. For a page count \<open>totalPages \<ge> 0\<close> and a current page between 1 and \<open>totalPages\<close>,
  the range of \<open>calculatePageRange\<close> lies within 1 and \<open>totalPages\<close> and holds the current
  page. Up to five pages the range is all of them; from five pages on it spans exactly
  five page numbers, with the current page in the middle unless the range would leave
  the pages at the low end (it then starts at 1) or at the high end (it then ends at
  \<open>totalPages\<close>).
\<close>

theorem calculatePageRange_window:
  assumes "0 \<le> totalPages" and "1 \<le> currentPage s" and "currentPage s \<le> totalPages"
  shows "case calculatePageRange totalPages s of (start, end') \<Rightarrow>
           1 \<le> start \<and> start \<le> end' \<and> end' \<le> totalPages
           \<and> start \<le> currentPage s \<and> currentPage s \<le> end'
           \<and> (totalPages \<le> 5 \<longrightarrow> start = 1 \<and> end' = totalPages)
           \<and> (5 \<le> totalPages \<longrightarrow>
                end' - start + 1 = 5
                \<and> (3 \<le> currentPage s \<and> currentPage s + 2 \<le> totalPages \<longrightarrow>
                     start = currentPage s - 2 \<and> end' = currentPage s + 2)
                \<and> (currentPage s < 3 \<longrightarrow> start = 1)
                \<and> (totalPages < currentPage s + 2 \<longrightarrow> end' = totalPages))"
  using assms
  by (auto simp: calculatePageRange_def MAX_VISIBLE_PAGES_def Let_def max_def min_def)

theorem calculatePageRange_window_witness:
  "calculatePageRange 9 (blankPage\<lparr>currentPage := 4\<rparr>) = (2, 6)"
  using calculatePageRange_window [of 9 "blankPage\<lparr>currentPage := 4\<rparr>"]
  by (simp split: prod.splits)

section \<open>Navigation\<close>

lemma getTotalPages_nonneg: "0 \<le> n \<Longrightarrow> 0 \<le> getTotalPages n"
  unfolding getTotalPages_div by presburger

lemma totalPagesNow_nonneg: "0 \<le> totalPagesNow s"
  by (simp add: totalPagesNow_def getTotalPages_nonneg)

lemma calculatePageRange_cong:
  "currentPage s = currentPage s' \<Longrightarrow> calculatePageRange tp s = calculatePageRange tp s'"
  by (simp add: calculatePageRange_def)

lemma calculatePageRange_within:
  "calculatePageRange tp s = (a, b) \<Longrightarrow> a \<le> i \<Longrightarrow> i \<le> b \<Longrightarrow> 1 \<le> i \<and> i \<le> tp"
  by (auto simp: calculatePageRange_def MAX_VISIBLE_PAGES_def Let_def max_def min_def
           split: if_splits)

lemma updateView_state [simp]:
  "store (updateView s) = store s"
  "nextRef (updateView s) = nextRef s"
  "products (updateView s) = products s"
  "cart (updateView s) = cart s"
  "currentPage (updateView s) = currentPage s"
  "soldoutCount (updateView s) = soldoutCount s"
  "isLoading (updateView s) = isLoading s"
  "editedProducts (updateView s) = editedProducts s"
  "convertedImages (updateView s) = convertedImages s"
  "editingProduct (updateView s) = editingProduct s"
  "deleteTarget (updateView s) = deleteTarget s"
  "searchInput (updateView s) = searchInput s"
  "showSoldOutCheckbox (updateView s) = showSoldOutCheckbox s"
  "cartCount (updateView s) = cartCount s"
  "whatsappBtn (updateView s) = whatsappBtn s"
  "searchTimer (updateView s) = searchTimer s"
  by (simp_all add: updateView_def updateFilterInfo_def render_def renderProducts_def Let_def
        split: prod.splits)

lemma updateView_navigation:
  "prevBtn (updateView s) = (currentPage s = 1)"
  "nextBtn (updateView s) = (currentPage s = totalPagesNow s \<or> totalPagesNow s = 0)"
  "pageNumbers (updateView s) = (case calculatePageRange (totalPagesNow s) s of (a, b) \<Rightarrow> [a..b])"
proof -
  let ?f = "getFilteredProducts (trim (searchInput s)) (showSoldOutCheckbox s) s"
  let ?r = "renderProducts (getPaginatedProducts ?f s) s"
  have cp: "currentPage ?r = currentPage s"
    by (simp add: renderProducts_def)
  have rng: "calculatePageRange tp ?r = calculatePageRange tp s" for tp
    by (rule calculatePageRange_cong) (rule cp)
  show "prevBtn (updateView s) = (currentPage s = 1)"
    by (simp add: updateView_def updateFilterInfo_def render_def Let_def cp split: prod.splits)
  show "nextBtn (updateView s) = (currentPage s = totalPagesNow s \<or> totalPagesNow s = 0)"
    by (simp add: updateView_def updateFilterInfo_def render_def Let_def cp totalPagesNow_def
          filteredNow_def split: prod.splits)
  show "pageNumbers (updateView s) =
          (case calculatePageRange (totalPagesNow s) s of (a, b) \<Rightarrow> [a..b])"
    by (simp add: updateView_def updateFilterInfo_def render_def Let_def rng totalPagesNow_def
          filteredNow_def split: prod.splits)
qed

lemma filteredNow_cong:
  "store s' = store s \<Longrightarrow> products s' = products s \<Longrightarrow> searchInput s' = searchInput s
   \<Longrightarrow> showSoldOutCheckbox s' = showSoldOutCheckbox s \<Longrightarrow> filteredNow s' = filteredNow s"
  by (simp add: filteredNow_def getFilteredProducts_def)

lemma totalPagesNow_cong:
  "store s' = store s \<Longrightarrow> products s' = products s \<Longrightarrow> searchInput s' = searchInput s
   \<Longrightarrow> showSoldOutCheckbox s' = showSoldOutCheckbox s \<Longrightarrow> totalPagesNow s' = totalPagesNow s"
  using filteredNow_cong [of s' s] by (simp add: totalPagesNow_def)

lemma totalPagesNow_updateView [simp]: "totalPagesNow (updateView s) = totalPagesNow s"
  by (rule totalPagesNow_cong) simp_all

lemma totalPagesNow_currentPage [simp]:
  "totalPagesNow (s\<lparr>currentPage := i\<rparr>) = totalPagesNow s"
  by (rule totalPagesNow_cong) simp_all

lemma totalPagesNow_searchTimer [simp]:
  "totalPagesNow (s\<lparr>searchTimer := b\<rparr>) = totalPagesNow s"
  by (rule totalPagesNow_cong) simp_all

lemma totalPagesNow_empty: "products s = [] \<Longrightarrow> totalPagesNow s = 0"
  by (simp add: totalPagesNow_def filteredNow_def getFilteredProducts_def getTotalPages_div)

lemma navigationOk_updateView:
  assumes "currentPage s = 1 \<or> (1 \<le> currentPage s \<and> currentPage s \<le> totalPagesNow s)"
  shows "navigationOk (updateView s)"
proof -
  obtain a b where ab: "calculatePageRange (totalPagesNow s) s = (a, b)"
    by (cases "calculatePageRange (totalPagesNow s) s")
  have "pageNumbers (updateView s) = [a..b]"
    by (simp add: updateView_navigation ab)
  then have "\<forall>i \<in> set (pageNumbers (updateView s)). 1 \<le> i \<and> i \<le> totalPagesNow s"
    using calculatePageRange_within[OF ab] by simp
  with assms show ?thesis
    by (simp add: navigationOk_def updateView_navigation)
qed

lemma pageNumbers_updateView:
  "\<forall>i \<in> set (pageNumbers (updateView s)). 1 \<le> i"
proof -
  obtain a b where ab: "calculatePageRange (totalPagesNow s) s = (a, b)"
    by (cases "calculatePageRange (totalPagesNow s) s")
  have "pageNumbers (updateView s) = [a..b]"
    by (simp add: updateView_navigation ab)
  then show ?thesis
    using calculatePageRange_within[OF ab] by simp
qed

lemma storefrontOk_updateView:
  assumes "1 \<le> currentPage s"
    and "isLoading s \<longrightarrow> products s = []"
    and "\<not> searchTimer s \<longrightarrow> currentPage s = 1 \<or> currentPage s \<le> totalPagesNow s"
  shows "storefrontOk (updateView s)"
proof -
  have "\<not> searchTimer s \<longrightarrow> navigationOk (updateView s)"
    using assms(1,3) by (auto intro: navigationOk_updateView)
  with assms(1,2) pageNumbers_updateView[of s] show ?thesis
    by (simp add: storefrontOk_def updateView_navigation)
qed

lemma toggleCartItem_state [simp]:
  "store (toggleCartItem p c s) = store s"
  "products (toggleCartItem p c s) = products s"
  "currentPage (toggleCartItem p c s) = currentPage s"
  "searchInput (toggleCartItem p c s) = searchInput s"
  "showSoldOutCheckbox (toggleCartItem p c s) = showSoldOutCheckbox s"
  "prevBtn (toggleCartItem p c s) = prevBtn s"
  "nextBtn (toggleCartItem p c s) = nextBtn s"
  "pageNumbers (toggleCartItem p c s) = pageNumbers s"
  "soldoutCount (toggleCartItem p c s) = soldoutCount s"
  "isLoading (toggleCartItem p c s) = isLoading s"
  "searchTimer (toggleCartItem p c s) = searchTimer s"
  by (simp_all add: toggleCartItem_def updateCart_def split: option.splits)

lemma navigationOk_cong:
  assumes "navigationOk s" and "totalPagesNow s' = totalPagesNow s"
    and "currentPage s' = currentPage s" and "prevBtn s' = prevBtn s"
    and "nextBtn s' = nextBtn s" and "pageNumbers s' = pageNumbers s"
  shows "navigationOk s'"
  using assms by (simp add: navigationOk_def)

lemma storefrontOk_step:
  assumes ok: "storefrontOk s" and st: "step e s = Some s'"
  shows "storefrontOk s'"
proof (cases e)
  case (SearchInput typed)
  with st have "s' = onSearchInput typed s"
    by simp
  with ok show ?thesis
    by (simp add: storefrontOk_def onSearchInput_def)
next
  case SearchTimer
  with st have s': "s' = onSearchTimer s"
    by (simp split: if_splits)
  from ok have "isLoading s \<longrightarrow> products s = []"
    by (simp add: storefrontOk_def)
  then show ?thesis
    unfolding s' onSearchTimer_def by (intro storefrontOk_updateView) simp_all
next
  case ShowSoldOutChange
  with st have s': "s' = onShowSoldOutChange s"
    by simp
  from ok have "isLoading s \<longrightarrow> products s = []"
    by (simp add: storefrontOk_def)
  then show ?thesis
    unfolding s' onShowSoldOutChange_def by (intro storefrontOk_updateView) simp_all
next
  case PrevClick
  with st have np: "\<not> prevBtn s" and s': "s' = onPrevClick s"
    by (auto split: if_splits)
  from np ok have low: "2 \<le> currentPage s"
    by (auto simp: storefrontOk_def)
  from np ok have up: "\<not> searchTimer s \<longrightarrow> currentPage s \<le> totalPagesNow s"
    by (auto simp: storefrontOk_def navigationOk_def)
  from ok have ld: "isLoading s \<longrightarrow> products s = []"
    by (simp add: storefrontOk_def)
  show ?thesis
    unfolding s' onPrevClick_def using low up ld
    by (intro storefrontOk_updateView) auto
next
  case NextClick
  with st have nn: "\<not> nextBtn s" and s': "s' = onNextClick s"
    by (auto split: if_splits)
  from ok have low: "1 \<le> currentPage s"
    by (simp add: storefrontOk_def)
  from nn ok have up: "\<not> searchTimer s \<longrightarrow> currentPage s < totalPagesNow s"
    using totalPagesNow_nonneg[of s] by (auto simp: storefrontOk_def navigationOk_def)
  from ok have ld: "isLoading s \<longrightarrow> products s = []"
    by (simp add: storefrontOk_def)
  show ?thesis
    unfolding s' onNextClick_def using low up ld
    by (intro storefrontOk_updateView) auto
next
  case (PageClick i)
  with st have i: "i \<in> set (pageNumbers s)" and s': "s' = onPageClick i s"
    by (auto split: if_splits)
  from i ok have low: "1 \<le> i"
    by (auto simp: storefrontOk_def)
  from i ok have up: "\<not> searchTimer s \<longrightarrow> i \<le> totalPagesNow s"
    by (auto simp: storefrontOk_def navigationOk_def)
  from ok have ld: "isLoading s \<longrightarrow> products s = []"
    by (simp add: storefrontOk_def)
  show ?thesis
    unfolding s' onPageClick_def using low up ld
    by (intro storefrontOk_updateView) auto
next
  case (CartToggle p c)
  with st have s': "s' = toggleCartItem p c s"
    by simp
  have tp: "totalPagesNow s' = totalPagesNow s"
    unfolding s' by (rule totalPagesNow_cong) simp_all
  have "navigationOk s'" if "navigationOk s"
    using that by (rule navigationOk_cong) (simp_all add: tp, simp_all add: s')
  with ok show ?thesis
    by (auto simp: storefrontOk_def s')
qed

lemma storefrontOk_started:
  assumes "markupDisabled page"
  shows "storefrontOk (init page)"
proof -
  have p: "products (init page) = []"
    by (simp add: init_def initialState_def updateCart_def)
  have "navigationOk (init page)"
    using assms totalPagesNow_empty[OF p]
    by (simp add: navigationOk_def markupDisabled_def init_def initialState_def updateCart_def)
  with assms p show ?thesis
    by (simp add: storefrontOk_def markupDisabled_def init_def initialState_def updateCart_def)
qed

lemma storefrontOk_arrived:
  assumes ok: "storefrontOk s" and ld: "isLoading s"
  shows "storefrontOk (initialize dv fetched s)"
proof -
  from ok ld have "products s = []"
    by (simp add: storefrontOk_def)
  then have "totalPagesNow s = 0"
    by (rule totalPagesNow_empty)
  with ok have one: "\<not> searchTimer s \<longrightarrow> currentPage s = 1"
    by (auto simp: storefrontOk_def navigationOk_def)
  from ok have low: "1 \<le> currentPage s"
    by (simp add: storefrontOk_def)
  show ?thesis
    unfolding initialize_def Let_def using one low
    by (intro storefrontOk_updateView) simp_all
qed

lemma storefrontOk_failed:
  assumes ok: "storefrontOk s"
  shows "storefrontOk (initializeFailed s)"
proof -
  have tp: "totalPagesNow (initializeFailed s) = totalPagesNow s"
    by (rule totalPagesNow_cong) (simp_all add: initializeFailed_def showError_def)
  have "navigationOk (initializeFailed s)" if "navigationOk s"
    using that
    by (rule navigationOk_cong) (simp_all add: tp, simp_all add: initializeFailed_def showError_def)
  with ok show ?thesis
    by (auto simp: storefrontOk_def initializeFailed_def showError_def)
qed

lemma reachable_storefrontOk: "reachable s \<Longrightarrow> storefrontOk s"
proof (induction rule: reachable.induct)
  case (started page)
  then show ?case by (rule storefrontOk_started)
next
  case (arrived s dateValue fetched)
  then show ?case by (blast intro: storefrontOk_arrived)
next
  case (failed s)
  then show ?case by (blast intro: storefrontOk_failed)
next
  case (stepped s e s')
  then show ?case by (blast intro: storefrontOk_step)
qed

text \<open>
  C4, as the code has it. The storefront starts with current page 1 and both navigation
  buttons disabled; its events are typing in the search box, the firing of the search
  timer and the flipping of the sold-out box (both set the current page to 1), a click on
  the previous or next button while it is not disabled (the current page goes down or up
  by one), a click on a page-number button that is shown (the current page becomes its
  number), cart toggles, and the arrival of the catalog. In every state reached, unless
  typed text is still waiting for the search timer: the current page lies between 1 and
  the page count whenever there is at least one page; when the filtered list is empty the
  page count is 0 and both navigation buttons are disabled; and the next button is
  disabled exactly on the last page or when there is no page. In every state reached, the
  current page is at least 1 and the previous button is disabled exactly on page 1.
\<close>

theorem navigation_invariant:
  assumes "reachable s"
  shows "(\<not> searchTimer s \<longrightarrow>
            (1 \<le> totalPagesNow s \<longrightarrow> 1 \<le> currentPage s \<and> currentPage s \<le> totalPagesNow s)
            \<and> (length (filteredNow s) = 0 \<longrightarrow> totalPagesNow s = 0 \<and> prevBtn s \<and> nextBtn s)
            \<and> (nextBtn s \<longleftrightarrow> currentPage s = totalPagesNow s \<or> totalPagesNow s = 0)
            \<and> (\<forall>i \<in> set (pageNumbers s). 1 \<le> i \<and> i \<le> totalPagesNow s))
         \<and> 1 \<le> currentPage s
         \<and> (prevBtn s \<longleftrightarrow> currentPage s = 1)
         \<and> searchInput (onSearchInput typed s) = typed
         \<and> currentPage (onSearchInput typed s) = currentPage s
         \<and> currentPage (onSearchTimer s) = 1
         \<and> \<not> searchTimer (onSearchTimer s)
         \<and> currentPage (onShowSoldOutChange s) = 1
         \<and> currentPage (onPrevClick s) = currentPage s - 1
         \<and> currentPage (onNextClick s) = currentPage s + 1
         \<and> currentPage (onPageClick i s) = i"
proof -
  have ok: "storefrontOk s"
    using assms by (rule reachable_storefrontOk)
  have zero: "length (filteredNow s) = 0 \<longrightarrow> totalPagesNow s = 0"
    by (simp add: totalPagesNow_def getTotalPages_div)
  have low: "1 \<le> currentPage s"
    using ok unfolding storefrontOk_def by blast
  have c3: "prevBtn s \<longleftrightarrow> currentPage s = 1"
    using ok unfolding storefrontOk_def by blast
  have quiet: "\<not> searchTimer s \<longrightarrow>
            (1 \<le> totalPagesNow s \<longrightarrow> 1 \<le> currentPage s \<and> currentPage s \<le> totalPagesNow s)
            \<and> (length (filteredNow s) = 0 \<longrightarrow> totalPagesNow s = 0 \<and> prevBtn s \<and> nextBtn s)
            \<and> (nextBtn s \<longleftrightarrow> currentPage s = totalPagesNow s \<or> totalPagesNow s = 0)
            \<and> (\<forall>i \<in> set (pageNumbers s). 1 \<le> i \<and> i \<le> totalPagesNow s)"
  proof
    assume "\<not> searchTimer s"
    with ok have nav: "navigationOk s"
      unfolding storefrontOk_def by blast
    have c1: "1 \<le> totalPagesNow s \<longrightarrow> 1 \<le> currentPage s \<and> currentPage s \<le> totalPagesNow s"
      using nav unfolding navigationOk_def by linarith
    have c4: "nextBtn s \<longleftrightarrow> currentPage s = totalPagesNow s \<or> totalPagesNow s = 0"
      using nav unfolding navigationOk_def by blast
    have c5: "\<forall>i \<in> set (pageNumbers s). 1 \<le> i \<and> i \<le> totalPagesNow s"
      using nav unfolding navigationOk_def by blast
    have cp: "totalPagesNow s = 0 \<longrightarrow> currentPage s = 1"
      using nav unfolding navigationOk_def by linarith
    have c2: "length (filteredNow s) = 0 \<longrightarrow> totalPagesNow s = 0 \<and> prevBtn s \<and> nextBtn s"
      using zero cp c3 c4 by blast
    from c1 c2 c4 c5 show "(1 \<le> totalPagesNow s \<longrightarrow> 1 \<le> currentPage s \<and> currentPage s \<le> totalPagesNow s)
            \<and> (length (filteredNow s) = 0 \<longrightarrow> totalPagesNow s = 0 \<and> prevBtn s \<and> nextBtn s)
            \<and> (nextBtn s \<longleftrightarrow> currentPage s = totalPagesNow s \<or> totalPagesNow s = 0)
            \<and> (\<forall>i \<in> set (pageNumbers s). 1 \<le> i \<and> i \<le> totalPagesNow s)"
      by (intro conjI)
  qed
  have h1: "searchInput (onSearchInput typed s) = typed"
    and h2: "currentPage (onSearchInput typed s) = currentPage s"
    by (simp_all add: onSearchInput_def)
  have h3: "currentPage (onSearchTimer s) = 1" and h4: "\<not> searchTimer (onSearchTimer s)"
    by (simp_all add: onSearchTimer_def)
  have h5: "currentPage (onShowSoldOutChange s) = 1"
    by (simp add: onShowSoldOutChange_def)
  have h6: "currentPage (onPrevClick s) = currentPage s - 1"
    by (simp add: onPrevClick_def)
  have h7: "currentPage (onNextClick s) = currentPage s + 1"
    by (simp add: onNextClick_def)
  have h8: "currentPage (onPageClick i s) = i"
    by (simp add: onPageClick_def)
  from quiet low c3 h1 h2 h3 h4 h5 h6 h7 h8 show ?thesis
    by (intro conjI)
qed

lemma blankPage_markup: "markupDisabled blankPage"
  by (simp add: markupDisabled_def blankPage_def)

lemma reachable_sixPlants: "reachable sixPlants"
proof -
  have "reachable (init blankPage)"
    using blankPage_markup by (rule reachable.started)
  moreover have "isLoading (init blankPage)"
    by (simp add: init_def updateCart_def)
  ultimately show ?thesis
    unfolding sixPlants_def by (rule reachable.arrived)
qed

lemma sixPlants_page: "currentPage sixPlants = 1 \<and> \<not> searchTimer sixPlants"
  by (simp add: sixPlants_def initialize_def init_def initialState_def updateCart_def Let_def)

lemma sixPlants_counts:
  "length (filteredNow sixPlants) = 5
   \<and> length (filteredNow (sixPlants\<lparr>searchInput := ''nana''\<rparr>)) = 1
   \<and> length (filteredNow (sixPlants\<lparr>searchInput := ''cactus''\<rparr>)) = 0"
  by code_simp

lemma sixPlants_totalPages: "totalPagesNow sixPlants = 2"
  using sixPlants_counts by (simp add: totalPagesNow_def getTotalPages_div)

lemma sixPlants_nextBtn: "nextBtn sixPlants = False"
  using sixPlants_page sixPlants_totalPages
  by (simp add: sixPlants_def initialize_def Let_def updateView_navigation)

lemma reachable_sixPlantsPage2: "reachable sixPlantsPage2"
proof -
  have "step NextClick sixPlants = Some sixPlantsPage2"
    by (simp add: sixPlants_nextBtn sixPlantsPage2_def)
  with reachable_sixPlants show ?thesis
    by (rule reachable.stepped)
qed

lemma reachable_sixPlantsNoMatch: "reachable sixPlantsNoMatch"
proof -
  have "step (SearchInput ''cactus'') sixPlantsPage2 = Some (onSearchInput ''cactus'' sixPlantsPage2)"
    by simp
  with reachable_sixPlantsPage2 have r: "reachable (onSearchInput ''cactus'' sixPlantsPage2)"
    by (rule reachable.stepped)
  have "step SearchTimer (onSearchInput ''cactus'' sixPlantsPage2) = Some sixPlantsNoMatch"
    by (simp add: sixPlantsNoMatch_def onSearchInput_def)
  with r show ?thesis
    by (rule reachable.stepped)
qed

lemma sixPlantsPage2_count: "length (filteredNow sixPlantsPage2) = 5"
proof -
  have "filteredNow sixPlantsPage2 = filteredNow sixPlants"
    by (rule filteredNow_cong) (simp_all add: sixPlantsPage2_def onNextClick_def)
  with sixPlants_counts show ?thesis
    by simp
qed

lemma sixPlantsNoMatch_count: "length (filteredNow sixPlantsNoMatch) = 0"
proof -
  have "filteredNow sixPlantsNoMatch = filteredNow (sixPlants\<lparr>searchInput := ''cactus''\<rparr>)"
    by (rule filteredNow_cong)
      (simp_all add: sixPlantsNoMatch_def onSearchTimer_def onSearchInput_def sixPlantsPage2_def
        onNextClick_def)
  with sixPlants_counts show ?thesis
    by simp
qed

theorem navigation_invariant_witness:
  "reachable sixPlantsPage2 \<and> currentPage sixPlantsPage2 \<in> {1..totalPagesNow sixPlantsPage2}
   \<and> reachable sixPlantsNoMatch \<and> totalPagesNow sixPlantsNoMatch = 0
   \<and> prevBtn sixPlantsNoMatch \<and> nextBtn sixPlantsNoMatch"
proof -
  have q2: "\<not> searchTimer sixPlantsPage2"
    using sixPlants_page by (simp add: sixPlantsPage2_def onNextClick_def)
  have q3: "\<not> searchTimer sixPlantsNoMatch"
    by (simp add: sixPlantsNoMatch_def onSearchTimer_def)
  have tp: "1 \<le> totalPagesNow sixPlantsPage2"
    by (simp add: totalPagesNow_def getTotalPages_div sixPlantsPage2_count)
  from navigation_invariant [OF reachable_sixPlantsPage2] q2 tp
  have a: "currentPage sixPlantsPage2 \<in> {1..totalPagesNow sixPlantsPage2}"
    by simp
  from navigation_invariant [OF reachable_sixPlantsNoMatch] q3 sixPlantsNoMatch_count
  have b: "totalPagesNow sixPlantsNoMatch = 0 \<and> prevBtn sixPlantsNoMatch \<and> nextBtn sixPlantsNoMatch"
    by blast
  from reachable_sixPlantsPage2 reachable_sixPlantsNoMatch a b show ?thesis
    by blast
qed

text \<open>
  The reset of the page waits for the search timer, while every rendering reads the
  search box as it is. On the six-plant page, typing \<^verbatim>\<open>nana\<close> (one match) and clicking the
  next button before the timer fires leaves the storefront on page 2 of 1, with both
  navigation buttons enabled.
\<close>

theorem navigation_counterexample:
  "reachable typedThenNext \<and> totalPagesNow typedThenNext = 1 \<and> currentPage typedThenNext = 2
   \<and> \<not> prevBtn typedThenNext \<and> \<not> nextBtn typedThenNext"
proof -
  have "step (SearchInput ''nana'') sixPlants = Some (onSearchInput ''nana'' sixPlants)"
    by simp
  with reachable_sixPlants have r: "reachable (onSearchInput ''nana'' sixPlants)"
    by (rule reachable.stepped)
  have "step NextClick (onSearchInput ''nana'' sixPlants) = Some typedThenNext"
    by (simp add: typedThenNext_def onSearchInput_def sixPlants_nextBtn)
  with r have reach: "reachable typedThenNext"
    by (rule reachable.stepped)
  have "filteredNow typedThenNext = filteredNow (sixPlants\<lparr>searchInput := ''nana''\<rparr>)"
    by (rule filteredNow_cong) (simp_all add: typedThenNext_def onNextClick_def onSearchInput_def)
  with sixPlants_counts have tp: "totalPagesNow typedThenNext = 1"
    by (simp add: totalPagesNow_def getTotalPages_div)
  have cp: "currentPage typedThenNext = 2"
    using sixPlants_page by (simp add: typedThenNext_def onNextClick_def onSearchInput_def)
  have "totalPagesNow (onSearchInput ''nana'' sixPlants\<lparr>currentPage := 2\<rparr>) = 1"
    using tp by (simp add: typedThenNext_def onNextClick_def)
  then have btn: "\<not> prevBtn typedThenNext \<and> \<not> nextBtn typedThenNext"
    using sixPlants_page
    by (simp add: typedThenNext_def onNextClick_def updateView_navigation onSearchInput_def)
  from reach tp cp btn show ?thesis
    by blast
qed

section \<open>Identifier generation\<close>

lemma roundDouble_small: "\<bar>v\<bar> < 9007199254740992 \<Longrightarrow> roundDouble v = v"
proof -
  assume "\<bar>v\<bar> < 9007199254740992"
  then have "bitlen \<bar>v\<bar> \<le> 53"
    by (simp add: bitlen_le_iff_power)
  then show ?thesis
    by (simp add: roundDouble_def Let_def)
qed

lemma toDouble_small: "\<bar>v\<bar> < 9007199254740992 \<Longrightarrow> toDouble v = Num v"
proof -
  assume v: "\<bar>v\<bar> < 9007199254740992"
  then have "bitlen \<bar>v\<bar> \<le> 53"
    by (simp add: bitlen_le_iff_power)
  with v show ?thesis
    by (simp add: toDouble_def roundDouble_small)
qed

lemma roundDouble_pos:
  assumes "0 < v"
  shows "0 < roundDouble v"
proof (cases "nat (bitlen \<bar>v\<bar> - 53) = 0")
  case True
  with assms show ?thesis
    by (simp add: roundDouble_def Let_def)
next
  case False
  let ?e = "nat (bitlen \<bar>v\<bar> - 53)"
  from False have le: "?e \<le> nat (bitlen v - 1)"
    using assms by simp
  have "(2::int) ^ ?e \<le> 2 ^ nat (bitlen v - 1)"
    using le by (intro power_increasing) simp_all
  also have "\<dots> \<le> v"
    using bitlen_bounds[OF assms] by simp
  finally have "2 ^ ?e \<le> \<bar>v\<bar>"
    using assms by simp
  then have q: "0 < \<bar>v\<bar> div 2 ^ ?e"
    by (simp add: pos_imp_zdiv_pos_iff)
  then have q1: "0 < \<bar>v\<bar> div 2 ^ ?e + 1"
    by simp
  have "roundDouble v = \<bar>v\<bar> div 2 ^ ?e * 2 ^ ?e \<or> roundDouble v = (\<bar>v\<bar> div 2 ^ ?e + 1) * 2 ^ ?e"
    using assms False by (simp add: roundDouble_def Let_def)
  moreover have "0 < \<bar>v\<bar> div 2 ^ ?e * 2 ^ ?e" and "0 < (\<bar>v\<bar> div 2 ^ ?e + 1) * 2 ^ ?e"
    using q q1 by (simp_all only: zero_less_mult_iff zero_less_power zero_less_numeral simp_thms)
  ultimately show ?thesis
    by presburger
qed

lemma roundDouble_minus: "roundDouble (- v) = - roundDouble v"
  by (simp add: roundDouble_def Let_def)

lemma roundDouble_le_zero: "roundDouble v \<le> 0 \<longleftrightarrow> v \<le> 0"
proof (cases "0 < v")
  case True
  with roundDouble_pos[of v] show ?thesis
    by simp
next
  case False
  show ?thesis
  proof (cases "v = 0")
    case True
    then show ?thesis
      by (simp add: roundDouble_def)
  next
    case nz: False
    with False have "0 < - v"
      by simp
    then have "0 < roundDouble (- v)"
      by (rule roundDouble_pos)
    with False show ?thesis
      by (simp add: roundDouble_minus)
  qed
qed

lemma compare_descending:
  "sortCompare (\<lambda>a b. jsminus b a) (Num i) (Num j) \<le> 0 \<longleftrightarrow> j \<le> i"
  using roundDouble_le_zero[of "j - i"]
  by (simp add: jsminus_def toDouble_def Let_def)

lemma set_insertSorted: "set (insertSorted c x ys) = insert x (set ys)"
  by (induction ys) auto

lemma set_sort_js: "set (sort_js c xs) = set xs"
  unfolding sort_js_def by (induction xs) (simp_all add: set_insertSorted)

lemma sorted_insertSorted:
  assumes "\<forall>y \<in> set (x # ys). \<exists>i. y = Num i"
    and "sorted_wrt (\<lambda>a b. numValue b \<le> numValue a) ys"
  shows "sorted_wrt (\<lambda>a b. numValue b \<le> numValue a) (insertSorted (\<lambda>a b. jsminus b a) x ys)"
  using assms
proof (induction ys)
  case Nil
  show ?case by simp
next
  case (Cons y ys)
  from Cons.prems obtain i j where x: "x = Num i" and y: "y = Num j"
    by auto
  show ?case
  proof (cases "j \<le> i")
    case True
    then have "insertSorted (\<lambda>a b. jsminus b a) x (y # ys) = x # y # ys"
      using compare_descending[of i j] by (simp add: x y del: sortCompare.simps)
    with True Cons.prems show ?thesis
      by (auto simp: x y)
  next
    case False
    then have ins: "insertSorted (\<lambda>a b. jsminus b a) x (y # ys)
                      = y # insertSorted (\<lambda>a b. jsminus b a) x ys"
      using compare_descending[of i j] by (simp add: x y del: sortCompare.simps)
    have "sorted_wrt (\<lambda>a b. numValue b \<le> numValue a) (insertSorted (\<lambda>a b. jsminus b a) x ys)"
      using Cons by simp
    with False Cons.prems show ?thesis
      unfolding ins by (auto simp: x y set_insertSorted)
  qed
qed

lemma sorted_sort_js:
  "\<forall>y \<in> set xs. \<exists>i. y = Num i \<Longrightarrow>
     sorted_wrt (\<lambda>a b. numValue b \<le> numValue a) (sort_js (\<lambda>a b. jsminus b a) xs)"
proof (induction xs)
  case Nil
  show ?case by (simp add: sort_js_def)
next
  case (Cons x xs)
  then have "sorted_wrt (\<lambda>a b. numValue b \<le> numValue a) (sort_js (\<lambda>a b. jsminus b a) xs)"
    by simp
  moreover have "\<forall>y \<in> set (x # sort_js (\<lambda>a b. jsminus b a) xs). \<exists>i. y = Num i"
    using Cons.prems by (simp add: set_sort_js)
  ultimately have "sorted_wrt (\<lambda>a b. numValue b \<le> numValue a)
      (insertSorted (\<lambda>a b. jsminus b a) x (sort_js (\<lambda>a b. jsminus b a) xs))"
    by (intro sorted_insertSorted)
  then show ?case
    by (simp add: sort_js_def)
qed

lemma first_of_sorted:
  assumes "xs \<noteq> []" and "\<forall>y \<in> set xs. \<exists>i. y = Num i"
  shows "\<exists>rest. sort_js (\<lambda>a b. jsminus b a) xs = Num (Max (numValue ` set xs)) # rest"
proof -
  let ?ys = "sort_js (\<lambda>a b. jsminus b a) xs"
  have set: "set ?ys = set xs"
    by (rule set_sort_js)
  with assms(1) obtain h rest where ys: "?ys = h # rest"
    by (cases ?ys) auto
  have "sorted_wrt (\<lambda>a b. numValue b \<le> numValue a) (h # rest)"
    using sorted_sort_js[OF assms(2)] ys by simp
  then have le: "\<forall>z \<in> set (h # rest). numValue z \<le> numValue h"
    by auto
  have "Max (numValue ` set xs) = numValue h"
  proof (rule Max_eqI)
    show "finite (numValue ` set xs)" by simp
    show "numValue h \<in> numValue ` set xs"
      using set ys by (metis imageI list.set_intros(1))
    fix y assume "y \<in> numValue ` set xs"
    then show "y \<le> numValue h"
      using le set ys by auto
  qed
  moreover have "\<exists>i. h = Num i"
    using assms(2) set ys by (metis list.set_intros(1))
  ultimately have "h = Num (Max (numValue ` set xs))"
    by auto
  with ys show ?thesis
    by blast
qed

lemma next_of_one: "map_option (\<lambda>digits. ''AP'' @ padStart 5 (CHR ''0'') digits) (numToString (Num 1))
                     = Some ''AP00001''"
  by code_simp

lemma getNextId_twoPlants: "getNextId twoPlants = Some ''AP00004''"
  by code_simp

lemma getNextId_blankPage: "getNextId blankPage = Some ''AP00001''"
  by code_simp

text \<open>
  C5, as the code has it. On a catalog that is not empty and in which every identifier,
  without its first two characters, parses to an integer below \<open>2 ^ 53 - 1\<close> in magnitude,
  \<open>getNextId\<close> returns \<^verbatim>\<open>AP\<close> followed by one more than the largest of these integers, as a
  decimal string padded with zeros on the left to five characters. On the empty catalog
  the result is \<^verbatim>\<open>AP00001\<close>, and on the catalog with the identifiers \<^verbatim>\<open>AP00001\<close> and
  \<^verbatim>\<open>AP00003\<close> it is \<^verbatim>\<open>AP00004\<close>.
\<close>

theorem getNextId_spec:
  "(products s \<noteq> []
     \<and> (\<forall>p \<in> set (products s).
           \<exists>v. parseInt (drop 2 (prod_id (store s p))) = Num v \<and> \<bar>v\<bar> < 9007199254740991)
      \<longrightarrow> getNextId s =
            Some (''AP'' @ padStart 5 (CHR ''0'')
               (toString (1 + Max ((\<lambda>p. numValue (parseInt (drop 2 (prod_id (store s p)))))
                                      ` set (products s))))))
   \<and> (products s = [] \<longrightarrow> getNextId s = Some ''AP00001'')
   \<and> getNextId twoPlants = Some ''AP00004''
   \<and> getNextId blankPage = Some ''AP00001''"
proof (intro conjI impI)
  assume h: "products s \<noteq> []
     \<and> (\<forall>p \<in> set (products s).
           \<exists>v. parseInt (drop 2 (prod_id (store s p))) = Num v \<and> \<bar>v\<bar> < 9007199254740991)"
  let ?f = "\<lambda>p. parseInt (drop 2 (prod_id (store s p)))"
  let ?xs = "map ?f (products s)"
  define m where "m = Max (numValue ` set ?xs)"
  have ne: "?xs \<noteq> []" and nums: "\<forall>y \<in> set ?xs. \<exists>i. y = Num i"
    using h by auto
  then obtain rest where sorted: "sort_js (\<lambda>a b. jsminus b a) ?xs = Num m # rest"
    unfolding m_def using first_of_sorted by blast
  have "m \<in> numValue ` set ?xs"
    unfolding m_def using ne by (intro Max_in) simp_all
  then obtain p where p: "p \<in> set (products s)" and mp: "m = numValue (?f p)"
    by auto
  from h p obtain v where "?f p = Num v" and "\<bar>v\<bar> < 9007199254740991"
    by blast
  with mp have bound: "\<bar>m\<bar> < 9007199254740991"
    by simp
  then have "toDouble (m + 1) = Num (m + 1)"
    by (intro toDouble_small) linarith
  then have next1: "jsplus (Num m) (Num 1) = Num (m + 1)"
    by simp
  have digits: "numToString (Num (m + 1)) = Some (toString (m + 1))"
    using bound by simp
  have "getNextId s = Some (''AP'' @ padStart 5 (CHR ''0'') (toString (m + 1)))"
    by (simp only: getNextId_def Let_def sorted list.case next1 digits option.map)
  moreover have "m + 1 = 1 + Max ((\<lambda>p. numValue (?f p)) ` set (products s))"
    by (simp add: m_def image_image)
  ultimately show "getNextId s =
            Some (''AP'' @ padStart 5 (CHR ''0'')
               (toString (1 + Max ((\<lambda>p. numValue (parseInt (drop 2 (prod_id (store s p)))))
                                      ` set (products s)))))"
    by simp
next
  assume "products s = []"
  then show "getNextId s = Some ''AP00001''"
    using next_of_one by (simp add: getNextId_def sort_js_def)
next
  show "getNextId twoPlants = Some ''AP00004''"
    by (rule getNextId_twoPlants)
  show "getNextId blankPage = Some ''AP00001''"
    by (rule getNextId_blankPage)
qed

lemma twoPlants_ids:
  "products twoPlants \<noteq> []
   \<and> (\<forall>p \<in> set (products twoPlants).
         parseInt (drop 2 (prod_id (store twoPlants p))) = Num (numValue (parseInt (drop 2 (prod_id (store twoPlants p)))))
         \<and> \<bar>numValue (parseInt (drop 2 (prod_id (store twoPlants p))))\<bar> < 9007199254740991)"
  by code_simp

theorem getNextId_spec_witness:
  "getNextId twoPlants =
     Some (''AP'' @ padStart 5 (CHR ''0'')
        (toString (1 + Max ((\<lambda>p. numValue (parseInt (drop 2 (prod_id (store twoPlants p)))))
                               ` set (products twoPlants)))))"
  using getNextId_spec [of twoPlants] twoPlants_ids by blast

text \<open>
  An identifier need not hold a number: for the one-plant catalog with the identifier
  \<^verbatim>\<open>FERN-1\<close>, \<^verbatim>\<open>parseInt\<close> of \<^verbatim>\<open>RN-1\<close> is \<^verbatim>\<open>NaN\<close>, and the result is \<^verbatim>\<open>AP00NaN\<close>.
\<close>

theorem getNextId_counterexample:
  "parseInt (drop 2 ''FERN-1'') = NaN \<and> getNextId oddId = Some ''AP00NaN''"
  by code_simp

section \<open>The cart\<close>

lemma find_absent:
  "\<not> inCatalog pid s \<Longrightarrow> find (\<lambda>p. prod_id (store s p) = pid) (products s) = None"
  unfolding inCatalog_def list_ex_iff find_None_iff by blast

lemma find_present:
  assumes "inCatalog pid s"
  shows "\<exists>r. find (\<lambda>p. prod_id (store s p) = pid) (products s) = Some r
             \<and> prod_id (store s r) = pid"
proof -
  from assms have "find (\<lambda>p. prod_id (store s p) = pid) (products s) \<noteq> None"
    unfolding inCatalog_def list_ex_iff find_None_iff by blast
  then obtain r where r: "find (\<lambda>p. prod_id (store s p) = pid) (products s) = Some r"
    by blast
  then have "prod_id (store s r) = pid"
    unfolding find_Some_iff by blast
  with r show ?thesis
    by blast
qed

lemma list_ex_entries:
  "list_ex (\<lambda>item. prod_id item = pid) (cart s) \<longleftrightarrow> entriesOf pid s \<noteq> 0"
  unfolding entriesOf_def list_ex_iff by (simp add: filter_empty_conv)

lemma length_filter_conj_le:
  "length (filter (\<lambda>x. Q x \<and> P x) xs) \<le> length (filter P xs)"
  by (induction xs) auto

lemma entries_toggle_on:
  assumes "inCatalog pid s"
  shows "entriesOf pid (toggleCartItem pid True s) = (if entriesOf pid s = 0 then 1 else entriesOf pid s)"
proof -
  from find_present[OF assms] obtain r
    where r: "find (\<lambda>p. prod_id (store s p) = pid) (products s) = Some r"
      and id: "prod_id (store s r) = pid"
    by blast
  show ?thesis
  proof (cases "entriesOf pid s = 0")
    case True
    then have "cart (toggleCartItem pid True s) = cart s @ [store s r]"
      by (simp add: toggleCartItem_def r list_ex_entries updateCart_def)
    with True id show ?thesis
      by (simp add: entriesOf_def)
  next
    case False
    then have "cart (toggleCartItem pid True s) = cart s"
      by (simp add: toggleCartItem_def r list_ex_entries updateCart_def)
    with False show ?thesis
      by (simp add: entriesOf_def)
  qed
qed

lemma cart_toggle_on_again:
  assumes "inCatalog pid s" and "entriesOf pid s \<noteq> 0"
  shows "cart (toggleCartItem pid True s) = cart s"
proof -
  from find_present[OF assms(1)] obtain r
    where r: "find (\<lambda>p. prod_id (store s p) = pid) (products s) = Some r"
    by blast
  from assms(2) show ?thesis
    by (simp add: toggleCartItem_def r list_ex_entries updateCart_def)
qed

lemma inCatalog_toggle [simp]:
  "inCatalog pid' (toggleCartItem pid c s) = inCatalog pid' s"
  by (simp add: inCatalog_def toggleCartItem_def updateCart_def split: option.splits)

lemma entries_toggle_on_twice:
  assumes "inCatalog pid s"
  shows "cart (toggleCartItem pid True (toggleCartItem pid True s)) = cart (toggleCartItem pid True s)"
    and "entriesOf pid (toggleCartItem pid True (toggleCartItem pid True s)) = max 1 (entriesOf pid s)"
proof -
  let ?s1 = "toggleCartItem pid True s"
  have in1: "inCatalog pid ?s1"
    using assms by simp
  have e1: "entriesOf pid ?s1 = (if entriesOf pid s = 0 then 1 else entriesOf pid s)"
    using assms by (rule entries_toggle_on)
  then have nz: "entriesOf pid ?s1 \<noteq> 0"
    by simp
  show "cart (toggleCartItem pid True ?s1) = cart ?s1"
    using in1 nz by (rule cart_toggle_on_again)
  then have "entriesOf pid (toggleCartItem pid True ?s1) = entriesOf pid ?s1"
    by (simp add: entriesOf_def)
  with e1 show "entriesOf pid (toggleCartItem pid True ?s1) = max 1 (entriesOf pid s)"
    by (simp add: max_def)
qed

lemma entries_toggle_on_other:
  assumes "pid' \<noteq> pid"
  shows "entriesOf pid' (toggleCartItem pid True s) = entriesOf pid' s"
proof (cases "inCatalog pid s")
  case False
  then show ?thesis
    by (simp add: toggleCartItem_def find_absent)
next
  case True
  from find_present[OF True] obtain r
    where r: "find (\<lambda>p. prod_id (store s p) = pid) (products s) = Some r"
      and id: "prod_id (store s r) = pid"
    by blast
  have "cart (toggleCartItem pid True s) = cart s \<or> cart (toggleCartItem pid True s) = cart s @ [store s r]"
    by (simp add: toggleCartItem_def r updateCart_def)
  with id assms show ?thesis
    by (auto simp: entriesOf_def)
qed

lemma entries_toggle_off:
  assumes "inCatalog pid s"
  shows "entriesOf pid (toggleCartItem pid False s) = 0"
proof -
  from find_present[OF assms] obtain r
    where r: "find (\<lambda>p. prod_id (store s p) = pid) (products s) = Some r"
    by blast
  show ?thesis
    by (simp add: toggleCartItem_def r updateCart_def entriesOf_def)
qed

lemma entries_toggle_off_le:
  "entriesOf pid' (toggleCartItem pid False s) \<le> entriesOf pid' s"
proof (cases "inCatalog pid s")
  case False
  then show ?thesis
    by (simp add: toggleCartItem_def find_absent)
next
  case True
  from find_present[OF True] obtain r
    where r: "find (\<lambda>p. prod_id (store s p) = pid) (products s) = Some r"
    by blast
  show ?thesis
    using length_filter_conj_le[of "\<lambda>item. prod_id item \<noteq> pid" "\<lambda>item. prod_id item = pid'" "cart s"]
    by (simp add: toggleCartItem_def r updateCart_def entriesOf_def)
qed

lemma toggled_entries: "toggled s \<Longrightarrow> entriesOf pid s \<le> 1"
proof (induction arbitrary: pid rule: toggled.induct)
  case (fresh s)
  then show ?case
    by (simp add: entriesOf_def)
next
  case (toggle s productId isChecked)
  show ?case
  proof (cases isChecked)
    case False
    have "entriesOf pid (toggleCartItem productId False s) \<le> entriesOf pid s"
      by (rule entries_toggle_off_le)
    also have "\<dots> \<le> 1"
      by (rule toggle.IH)
    finally show ?thesis
      using False by simp
  next
    case True
    show ?thesis
    proof (cases "pid = productId")
      case False
      then show ?thesis
        using toggle.IH[of pid] True by (simp add: entries_toggle_on_other)
    next
      case same: True
      show ?thesis
      proof (cases "inCatalog productId s")
        case False
        then show ?thesis
          using toggle.IH[of pid] by (simp add: toggleCartItem_def find_absent)
      next
        case True
        from entries_toggle_on[OF True] toggle.IH[of productId] show ?thesis
          using same \<open>isChecked\<close> by (simp split: if_splits)
      qed
    qed
  qed
qed

text \<open>
  C6. For an identifier of the catalog and a starting cart that toggles have built from
  the empty cart (the only carts the storefront holds: the cart starts empty, and only
  \<open>toggleCartItem\<close> writes it): two calls \<open>toggleCartItem productId true\<close> in succession leave
  exactly one entry of the identifier in the cart, the second call leaving the cart of
  the first as it is; \<open>toggleCartItem productId false\<close> leaves no entry of the identifier,
  however many toggles came before; and the cart holds at most one entry per identifier.
\<close>

theorem toggleCartItem_idempotent:
  assumes "toggled s" and "inCatalog pid s"
  shows "entriesOf pid (toggleCartItem pid True (toggleCartItem pid True s)) = 1
         \<and> cart (toggleCartItem pid True (toggleCartItem pid True s))
             = cart (toggleCartItem pid True s)
         \<and> entriesOf pid (toggleCartItem pid False s) = 0
         \<and> toggled (toggleCartItem pid True (toggleCartItem pid True s))
         \<and> toggled (toggleCartItem pid False s)
         \<and> (\<forall>pid'. entriesOf pid' s \<le> 1)"
proof -
  have one: "entriesOf pid s \<le> 1"
    using assms(1) by (rule toggled_entries)
  have a: "entriesOf pid (toggleCartItem pid True (toggleCartItem pid True s)) = 1"
    using entries_toggle_on_twice(2)[OF assms(2)] one by (simp add: max_def)
  have b: "cart (toggleCartItem pid True (toggleCartItem pid True s))
             = cart (toggleCartItem pid True s)"
    using assms(2) by (rule entries_toggle_on_twice(1))
  have c: "entriesOf pid (toggleCartItem pid False s) = 0"
    using assms(2) by (rule entries_toggle_off)
  have d: "toggled (toggleCartItem pid True (toggleCartItem pid True s))"
    and e: "toggled (toggleCartItem pid False s)"
    using assms(1) by (blast intro: toggled.toggle)+
  have f: "\<forall>pid'. entriesOf pid' s \<le> 1"
    using assms(1) by (blast intro: toggled_entries)
  from a b c d e f show ?thesis
    by (intro conjI)
qed

lemma twoPlants_cart: "cart twoPlants = [] \<and> inCatalog ''AP00001'' twoPlants"
  by code_simp

theorem toggleCartItem_idempotent_witness:
  "entriesOf ''AP00001'' (toggleCartItem ''AP00001'' True (toggleCartItem ''AP00001'' True twoPlants)) = 1
   \<and> entriesOf ''AP00001''
        (toggleCartItem ''AP00001'' False
           (toggleCartItem ''AP00001'' True (toggleCartItem ''AP00001'' True twoPlants))) = 0"
proof -
  have c: "inCatalog ''AP00001'' twoPlants"
    using twoPlants_cart by simp
  have t: "toggled twoPlants"
    using twoPlants_cart by (simp add: toggled.fresh)
  from toggleCartItem_idempotent [OF t c]
  have a: "entriesOf ''AP00001'' (toggleCartItem ''AP00001'' True (toggleCartItem ''AP00001'' True twoPlants)) = 1"
    and t2: "toggled (toggleCartItem ''AP00001'' True (toggleCartItem ''AP00001'' True twoPlants))"
    by blast+
  have c2: "inCatalog ''AP00001'' (toggleCartItem ''AP00001'' True (toggleCartItem ''AP00001'' True twoPlants))"
    using c by simp
  from toggleCartItem_idempotent [OF t2 c2]
  have "entriesOf ''AP00001''
        (toggleCartItem ''AP00001'' False
           (toggleCartItem ''AP00001'' True (toggleCartItem ''AP00001'' True twoPlants))) = 0"
    by blast
  with a show ?thesis
    by blast
qed

text \<open>
  C9. For an identifier that no catalog record carries, \<open>toggleCartItem\<close> returns the
  state as it was, for either value of the flag: the cart, the catalog, every other field
  of the state and the cart view are unchanged.
\<close>

theorem toggleCartItem_unknown:
  assumes "\<forall>p \<in> set (products s). prod_id (store s p) \<noteq> pid"
  shows "toggleCartItem pid isChecked s = s"
proof -
  from assms have "\<not> inCatalog pid s"
    unfolding inCatalog_def list_ex_iff by blast
  then show ?thesis
    by (simp add: toggleCartItem_def find_absent)
qed

lemma twoPlants_unknown: "\<forall>p \<in> set (products twoPlants). prod_id (store twoPlants p) \<noteq> ''AP00002''"
  by code_simp

theorem toggleCartItem_unknown_witness:
  "toggleCartItem ''AP00002'' True twoPlants = twoPlants
   \<and> toggleCartItem ''AP00002'' False twoPlants = twoPlants"
  using toggleCartItem_unknown [OF twoPlants_unknown] by blast

section \<open>Admin edits\<close>






lemma onsubmit_add:
  assumes "editingProduct s = None" and "productImage f = None"
  shows "products (onsubmit now f s) = nextRef s # products s"
    and "store (onsubmit now f s) =
           (store s)(nextRef s :=
              \<lparr>prod_id = productId f, name = trim (productName f),
               species = trim (productSpecies f), price = productPrice f,
               available = productAvailable f, image = Some '''', created_at = now\<rparr>)"
  using assms by (simp_all add: onsubmit_def Let_def)

lemma placeholder_external: "\<not> prefix ''data/images/'' placeholderUrl"
  by code_simp

text \<open>
  C8. Submitting the add form (no record being edited) without an image file puts a new
  record at the front of the catalog whose image reference is the empty string; and for a
  record with an empty image reference the card's image address is the placeholder
  address, which is not a path under the catalog's image directory.
\<close>

theorem onsubmit_add_without_image:
  assumes "editingProduct s = None" and "productImage f = None"
  shows "products (onsubmit now f s) = nextRef s # products s
         \<and> image (store (onsubmit now f s) (nextRef s)) = Some ''''
         \<and> imageSrc (store (onsubmit now f s) (nextRef s)) = placeholderUrl
         \<and> (\<forall>p :: 'a product. image p = Some '''' \<longrightarrow> imageSrc p = placeholderUrl)
         \<and> \<not> prefix ''data/images/'' placeholderUrl"
  using placeholder_external by (simp add: onsubmit_add [OF assms] imageSrc_def)

lemma addingOne_target: "editingProduct addingOne = None"
  by (simp add: addingOne_def openAddModal_def)

lemma addForm_file: "productImage addForm = None"
  by (simp add: addForm_def)

theorem onsubmit_add_without_image_witness:
  "image (store (onsubmit ''2024-06-01T00:00:00.000Z'' addForm addingOne) (nextRef addingOne))
     = Some ''''
   \<and> imageSrc (store (onsubmit ''2024-06-01T00:00:00.000Z'' addForm addingOne) (nextRef addingOne))
     = placeholderUrl"
  using onsubmit_add_without_image
    [OF addingOne_target addForm_file, of "''2024-06-01T00:00:00.000Z''"]
  by blast

section \<open>The sold-out count\<close>

lemma length_filter_insertSorted:
  "length (filter P (insertSorted c x ys)) = length (filter P (x # ys))"
  by (induction ys) auto

lemma length_filter_sort_js:
  "length (filter P (sort_js c xs)) = length (filter P xs)"
  unfolding sort_js_def by (induction xs) (simp_all add: length_filter_insertSorted)

lemma map_fetched:
  "map (\<lambda>r. if base \<le> r \<and> r < base + length xs then xs ! (r - base) else g r)
     [base..<base + length xs] = xs"
  by (rule nth_equalityI) simp_all

lemma soldoutCount_initialize:
  "soldoutCount (initialize dv fetched s) = int (length (filter (\<lambda>p. \<not> available p) fetched))"
proof -
  define st where "st = (\<lambda>r. if nextRef s \<le> r \<and> r < nextRef s + length fetched
                  then fetched ! (r - nextRef s) else store s r)"
  define refs where "refs = [nextRef s..<nextRef s + length fetched]"
  have "soldoutCount (initialize dv fetched s) =
          int (length (filter (\<lambda>p. \<not> available (st p))
             (sort_js (\<lambda>a b. jsminus (dv (created_at (st b))) (dv (created_at (st a)))) refs)))"
    by (simp add: initialize_def Let_def st_def refs_def)
  also have "\<dots> = int (length (filter (\<lambda>p. \<not> available p) (map st refs)))"
    by (simp only: length_filter_sort_js filter_map comp_def length_map)
  also have "map st refs = fetched"
    unfolding st_def refs_def by (rule map_fetched)
  finally show ?thesis .
qed

lemma soldoutCount_onsubmit: "soldoutCount (onsubmit now f s) = soldoutCount s"
  by (simp add: onsubmit_def Let_def split: option.splits)

lemma soldoutCount_confirmDelete:
  "confirmDelete s = Inr s' \<Longrightarrow> soldoutCount s' = soldoutCount s"
  by (auto simp: confirmDelete_def split: option.splits)

lemma afterDelete_counts: "shownOutOf afterDelete = 0 \<and> visibleItems afterDelete = 1"
  by code_simp

lemma afterEdit_counts: "shownOutOf afterEdit = 1 \<and> visibleItems afterEdit = 0"
  by code_simp

lemma confirmDelete_example: "confirmDelete deletingSoldOut = Inr afterDelete"
  by (simp add: afterDelete_def confirmDelete_def deletingSoldOut_def openDeleteModal_def)

lemma updateFilterInfo_message:
  "queryInfo (updateFilterInfo n s) =
     ''Page '' @ toString (currentPage s) @ '' | Showing '' @ toString n @ '' of ''
       @ toString (shownOutOf s) @ '' item(s)''"
  by (simp add: updateFilterInfo_def shownOutOf_def Let_def)

lemma afterDelete_message: "queryInfo afterDelete = ''Page 1 | Showing 1 of 0 item(s)''"
  by code_simp

text \<open>
  C10. \<open>soldoutCount\<close> is written by \<open>initialize\<close>, as the number of unavailable records
  among those loaded, and by nothing else: the form's submit handler (adding or editing,
  whatever the new availability), the delete handler and the dialogs leave it as it is. The
  count after "of" in the info line is the catalog length minus \<open>soldoutCount\<close> while
  sold-out items are hidden, so after an admin change it can differ from the number of
  visible products: after deleting the sold-out plant of the two-plant catalog the line
  reads "Showing 1 of 0", and after marking the available plant sold out the count is 1
  with no visible product.
\<close>

theorem soldoutCount_stale:
  "soldoutCount (initialize dv fetched s0) = int (length (filter (\<lambda>p. \<not> available p) fetched))
   \<and> soldoutCount (onsubmit now f s) = soldoutCount s
   \<and> (\<forall>s'. confirmDelete s = Inr s' \<longrightarrow> soldoutCount s' = soldoutCount s)
   \<and> soldoutCount (openAddModal s) = soldoutCount s
   \<and> soldoutCount (openEditModal r s) = soldoutCount s
   \<and> soldoutCount (openDeleteModal r s) = soldoutCount s
   \<and> queryInfo (updateFilterInfo n s) =
       ''Page '' @ toString (currentPage s) @ '' | Showing '' @ toString n @ '' of ''
         @ toString (shownOutOf s) @ '' item(s)''
   \<and> confirmDelete deletingSoldOut = Inr afterDelete
   \<and> shownOutOf afterDelete = 0 \<and> visibleItems afterDelete = 1
   \<and> queryInfo afterDelete = ''Page 1 | Showing 1 of 0 item(s)''
   \<and> shownOutOf afterEdit = 1 \<and> visibleItems afterEdit = 0"
  using soldoutCount_initialize [of dv fetched s0] soldoutCount_onsubmit [of now f s]
    soldoutCount_confirmDelete [of s] confirmDelete_example afterDelete_counts afterEdit_counts
    updateFilterInfo_message [of n s] afterDelete_message
  by (simp add: openAddModal_def openEditModal_def openDeleteModal_def)

lemma soldoutCount_twoPlants: "soldoutCount deletingSoldOut = 1"
  by code_simp

theorem soldoutCount_stale_witness:
  "soldoutCount afterDelete = 1 \<and> shownOutOf afterDelete \<noteq> visibleItems afterDelete"
proof -
  from soldoutCount_stale [of "\<lambda>d. Num 0" "[]" blankPage "''''" editForm deletingSoldOut 0 0]
  have "soldoutCount afterDelete = soldoutCount deletingSoldOut"
    and "shownOutOf afterDelete = 0" and "visibleItems afterDelete = 1"
    by blast+
  with soldoutCount_twoPlants show ?thesis
    by simp
qed

end
